theory Spec2Isabelle
  imports Complex_Main "HOL-Library.Word"
begin

unbundle bit_operations_syntax

section \<open>JavaScript values\<close>

text \<open>
  The library (\<^verbatim>\<open>src/index.js\<close>) is dynamically typed, so its arguments, the JSON bodies
  it receives and the values it returns are all elements of one datatype.  A number is a
  double: \<open>JNum x\<close> for a real \<open>x\<close> that a double holds, the two infinities
  (\<open>JInfinity True\<close> the positive one) and \<open>NaN\<close>; the negative zero is not told apart
  from zero.  A string
  is a list of code units below 256.  A plain object is the list of its own enumerable
  properties in the order in which \<^verbatim>\<open>Object.keys\<close> enumerates them; a well-formed object
  has no key twice.
\<close>

type_synonym byte = "8 word"
type_synonym u32 = "32 word"

datatype jsval =
    JUndefined
  | JNull
  | JBool bool
  | JNum real
  | JInfinity bool
  | JNaN
  | JStr string
  | JBuffer "byte list"
  | JReadable "byte list"
  | JObj "(string \<times> jsval) list"
  | JArray "jsval list"

text \<open>Truthiness, as tested by \<^verbatim>\<open>if (v)\<close>, \<^verbatim>\<open>v && ...\<close> and \<^verbatim>\<open>v ? ... : ...\<close>.\<close>

fun truthy :: "jsval \<Rightarrow> bool" where
  "truthy JUndefined = False"
| "truthy JNull = False"
| "truthy (JBool b) = b"
| "truthy (JNum x) = (x \<noteq> 0)"
| "truthy (JInfinity b) = True"
| "truthy JNaN = False"
| "truthy (JStr s) = (s \<noteq> [])"
| "truthy (JBuffer b) = True"
| "truthy (JReadable b) = True"
| "truthy (JObj kvs) = True"
| "truthy (JArray xs) = True"

text \<open>\<^verbatim>\<open>typeof v === "object"\<close>: true of \<^verbatim>\<open>null\<close> and of every object.\<close>

fun typeof_object :: "jsval \<Rightarrow> bool" where
  "typeof_object JNull = True"
| "typeof_object (JBuffer b) = True"
| "typeof_object (JReadable b) = True"
| "typeof_object (JObj kvs) = True"
| "typeof_object (JArray xs) = True"
| "typeof_object v = False"

text \<open>\<^verbatim>\<open>v instanceof Buffer\<close> and \<^verbatim>\<open>v instanceof stream.Readable\<close>.\<close>

fun instanceof_Buffer :: "jsval \<Rightarrow> bool" where
  "instanceof_Buffer (JBuffer b) = True"
| "instanceof_Buffer v = False"

fun instanceof_Readable :: "jsval \<Rightarrow> bool" where
  "instanceof_Readable (JReadable b) = True"
| "instanceof_Readable v = False"

text \<open>
  The errors the library raises.  The source raises \<^verbatim>\<open>Error\<close> objects told apart by their
  message; here each message is a constructor, and the response body that the source
  appends as JSON text is the constructor's argument.  \<open>ArraysNotSupported\<close> is the
  error that the form-data package raises when it is given an array to append.
\<close>

datatype error =
    TypeError
  | RequestFailed jsval
  | FetchServerFailed jsval
  | InvalidField string
  | UploadFailed jsval
  | FilenameBlank
  | InvalidFileType
  | RemoveFailed jsval
  | FetchInfoFailed jsval
  | ArraysNotSupported

definition and_then :: "error + 'a \<Rightarrow> ('a \<Rightarrow> error + 'b) \<Rightarrow> error + 'b" where
  "and_then r f = (case r of Inl e \<Rightarrow> Inl e | Inr v \<Rightarrow> f v)"

text \<open>The decimal text of an array index, as \<^verbatim>\<open>Object.keys\<close> reports it.\<close>

fun index_key :: "nat \<Rightarrow> string" where
  "index_key n =
     (if n < 10 then [''0123456789'' ! n]
      else index_key (n div 10) @ [''0123456789'' ! (n mod 10)])"

declare index_key.simps [simp del]

definition index_keys :: "nat \<Rightarrow> string list" where
  "index_keys n = map index_key [0..<n]"

definition key_index :: "nat \<Rightarrow> string \<Rightarrow> nat option" where
  "key_index n k = find (\<lambda>i. index_key i = k) [0..<n]"

text \<open>The number a decimal text denotes.\<close>

definition key_number :: "string \<Rightarrow> nat" where
  "key_number s = foldl (\<lambda>a c. 10 * a + (of_char c - 48)) 0 s"

text \<open>
  Reading a property, \<^verbatim>\<open>v.k\<close> or \<^verbatim>\<open>v[k]\<close>: a \<^verbatim>\<open>TypeError\<close> on \<^verbatim>\<open>undefined\<close> and
  \<^verbatim>\<open>null\<close>, the own property otherwise, \<^verbatim>\<open>undefined\<close> when there is none.  Only own
  properties are modelled: the library reads fixed data properties and the keys that
  \<^verbatim>\<open>Object.keys\<close> enumerates.
\<close>

fun get_prop :: "jsval \<Rightarrow> string \<Rightarrow> error + jsval" where
  "get_prop JUndefined k = Inl TypeError"
| "get_prop JNull k = Inl TypeError"
| "get_prop (JObj kvs) k = Inr (case map_of kvs k of Some v \<Rightarrow> v | None \<Rightarrow> JUndefined)"
| "get_prop (JArray xs) k =
     Inr (case key_index (length xs) k of Some i \<Rightarrow> xs ! i
          | None \<Rightarrow> if k = ''length'' then JNum (real (length xs)) else JUndefined)"
| "get_prop (JStr s) k =
     Inr (case key_index (length s) k of Some i \<Rightarrow> JStr [s ! i]
          | None \<Rightarrow> if k = ''length'' then JNum (real (length s)) else JUndefined)"
| "get_prop (JBuffer b) k =
     Inr (case key_index (length b) k of Some i \<Rightarrow> JNum (real (unat (b ! i)))
          | None \<Rightarrow> if k = ''length'' then JNum (real (length b)) else JUndefined)"
| "get_prop v k = Inr JUndefined"

text \<open>\<^verbatim>\<open>Object.keys(v)\<close>; the internal fields of a stream object are not modelled.\<close>

fun object_keys :: "jsval \<Rightarrow> error + string list" where
  "object_keys JUndefined = Inl TypeError"
| "object_keys JNull = Inl TypeError"
| "object_keys (JObj kvs) = Inr (map fst kvs)"
| "object_keys (JArray xs) = Inr (index_keys (length xs))"
| "object_keys (JStr s) = Inr (index_keys (length s))"
| "object_keys (JBuffer b) = Inr (index_keys (length b))"
| "object_keys v = Inr []"

fun map_err :: "('a \<Rightarrow> error + 'b) \<Rightarrow> 'a list \<Rightarrow> error + 'b list" where
  "map_err f [] = Inr []"
| "map_err f (x # xs) =
     (case f x of Inl e \<Rightarrow> Inl e
      | Inr y \<Rightarrow> (case map_err f xs of Inl e \<Rightarrow> Inl e | Inr ys \<Rightarrow> Inr (y # ys)))"

text \<open>A parameter's default value applies when the argument is \<^verbatim>\<open>undefined\<close>.\<close>

definition default_arg :: "jsval \<Rightarrow> jsval \<Rightarrow> jsval" where
  "default_arg v d = (if v = JUndefined then d else v)"

section \<open>SHA-256\<close>

text \<open>
  \<^verbatim>\<open>crypto.createHash("sha256").update(str).digest("hex")\<close>: the string is encoded as UTF-8,
  hashed with SHA-256 (FIPS 180-4) and the 32 bytes are written as lowercase hexadecimal.
\<close>

definition utf8_char :: "char \<Rightarrow> byte list" where
  "utf8_char c =
     (let n = (of_char c :: nat) in
      if n < 128 then [of_nat n]
      else [of_nat (192 + n div 64), of_nat (128 + n mod 64)])"

definition utf8 :: "string \<Rightarrow> byte list" where
  "utf8 s = concat (map utf8_char s)"

definition rotr :: "nat \<Rightarrow> u32 \<Rightarrow> u32" where
  "rotr n x = word_rotr n x"

definition Ch :: "u32 \<Rightarrow> u32 \<Rightarrow> u32 \<Rightarrow> u32" where
  "Ch x y z = (x AND y) XOR (NOT x AND z)"

definition Maj :: "u32 \<Rightarrow> u32 \<Rightarrow> u32 \<Rightarrow> u32" where
  "Maj x y z = (x AND y) XOR (x AND z) XOR (y AND z)"

definition bsig0 :: "u32 \<Rightarrow> u32" where
  "bsig0 x = rotr 2 x XOR rotr 13 x XOR rotr 22 x"

definition bsig1 :: "u32 \<Rightarrow> u32" where
  "bsig1 x = rotr 6 x XOR rotr 11 x XOR rotr 25 x"

definition ssig0 :: "u32 \<Rightarrow> u32" where
  "ssig0 x = rotr 7 x XOR rotr 18 x XOR drop_bit 3 x"

definition ssig1 :: "u32 \<Rightarrow> u32" where
  "ssig1 x = rotr 17 x XOR rotr 19 x XOR drop_bit 10 x"

definition K256 :: "u32 list" where
  "K256 =
   [0x428A2F98, 0x71374491, 0xB5C0FBCF, 0xE9B5DBA5, 0x3956C25B, 0x59F111F1, 0x923F82A4, 0xAB1C5ED5,
    0xD807AA98, 0x12835B01, 0x243185BE, 0x550C7DC3, 0x72BE5D74, 0x80DEB1FE, 0x9BDC06A7, 0xC19BF174,
    0xE49B69C1, 0xEFBE4786, 0x0FC19DC6, 0x240CA1CC, 0x2DE92C6F, 0x4A7484AA, 0x5CB0A9DC, 0x76F988DA,
    0x983E5152, 0xA831C66D, 0xB00327C8, 0xBF597FC7, 0xC6E00BF3, 0xD5A79147, 0x06CA6351, 0x14292967,
    0x27B70A85, 0x2E1B2138, 0x4D2C6DFC, 0x53380D13, 0x650A7354, 0x766A0ABB, 0x81C2C92E, 0x92722C85,
    0xA2BFE8A1, 0xA81A664B, 0xC24B8B70, 0xC76C51A3, 0xD192E819, 0xD6990624, 0xF40E3585, 0x106AA070,
    0x19A4C116, 0x1E376C08, 0x2748774C, 0x34B0BCB5, 0x391C0CB3, 0x4ED8AA4A, 0x5B9CCA4F, 0x682E6FF3,
    0x748F82EE, 0x78A5636F, 0x84C87814, 0x8CC70208, 0x90BEFFFA, 0xA4506CEB, 0xBEF9A3F7, 0xC67178F2]"

type_synonym hstate = "u32 \<times> u32 \<times> u32 \<times> u32 \<times> u32 \<times> u32 \<times> u32 \<times> u32"

definition H256 :: hstate where
  "H256 = (0x6A09E667, 0xBB67AE85, 0x3C6EF372, 0xA54FF53A,
           0x510E527F, 0x9B05688C, 0x1F83D9AB, 0x5BE0CD19)"

text \<open>Padding: a one bit, zeros up to 56 modulo 64 bytes, the bit length on 64 bits.\<close>

definition pad :: "byte list \<Rightarrow> byte list" where
  "pad m =
     (let l = length m;
          k = (119 - l mod 64) mod 64;
          bits = (of_nat (8 * l) :: 64 word)
      in m @ [0x80] @ replicate k 0 @
         map (\<lambda>i. ucast (drop_bit (8 * (7 - i)) bits)) [0..<8])"

definition be32 :: "byte list \<Rightarrow> u32" where
  "be32 bs = foldl (\<lambda>w b. push_bit 8 w OR ucast b) 0 bs"

fun words :: "nat \<Rightarrow> byte list \<Rightarrow> u32 list" where
  "words 0 bs = []"
| "words (Suc n) bs = be32 (take 4 bs) # words n (drop 4 bs)"

text \<open>The message schedule: \<open>extend 48\<close> grows the 16 words of a block to 64.\<close>

fun extend :: "nat \<Rightarrow> u32 list \<Rightarrow> u32 list" where
  "extend 0 w = w"
| "extend (Suc n) w =
     (let t = length w in
      extend n (w @ [ssig1 (w ! (t - 2)) + w ! (t - 7) + ssig0 (w ! (t - 15)) + w ! (t - 16)]))"

definition round256 :: "hstate \<Rightarrow> u32 \<times> u32 \<Rightarrow> hstate" where
  "round256 s kw =
     (case s of (a, b, c, d, e, f, g, h) \<Rightarrow>
        let t1 = h + bsig1 e + Ch e f g + fst kw + snd kw;
            t2 = bsig0 a + Maj a b c
        in (t1 + t2, a, b, c, d + t1, e, f, g))"

definition add_state :: "hstate \<Rightarrow> hstate \<Rightarrow> hstate" where
  "add_state s t =
     (case s of (a, b, c, d, e, f, g, h) \<Rightarrow>
      case t of (a', b', c', d', e', f', g', h') \<Rightarrow>
        (a + a', b + b', c + c', d + d', e + e', f + f', g + g', h + h'))"

definition compress :: "hstate \<Rightarrow> byte list \<Rightarrow> hstate" where
  "compress s block =
     add_state s (foldl round256 s (zip K256 (extend 48 (words 16 block))))"

fun blocks :: "nat \<Rightarrow> hstate \<Rightarrow> byte list \<Rightarrow> hstate" where
  "blocks 0 s bs = s"
| "blocks (Suc n) s bs = blocks n (compress s (take 64 bs)) (drop 64 bs)"

definition sha256 :: "byte list \<Rightarrow> hstate" where
  "sha256 m = (let p = pad m in blocks (length p div 64) H256 p)"

definition hex_digit :: "nat \<Rightarrow> char" where
  "hex_digit n = ''0123456789abcdef'' ! n"

definition hex32 :: "u32 \<Rightarrow> string" where
  "hex32 w = map (\<lambda>i. hex_digit (unat (drop_bit (4 * (7 - i)) w AND 15))) [0..<8]"

definition hex_digest :: "hstate \<Rightarrow> string" where
  "hex_digest s =
     (case s of (a, b, c, d, e, f, g, h) \<Rightarrow>
        hex32 a @ hex32 b @ hex32 c @ hex32 d @ hex32 e @ hex32 f @ hex32 g @ hex32 h)"

text \<open>
  \<^verbatim>\<open>function sha256hash(str)\<close>.  \<^verbatim>\<open>update\<close> takes a string or a buffer and raises a
  \<^verbatim>\<open>TypeError\<close> on anything else.
\<close>

fun sha256hash :: "jsval \<Rightarrow> error + string" where
  "sha256hash (JStr str) = Inr (hex_digest (sha256 (utf8 str)))"
| "sha256hash (JBuffer b) = Inr (hex_digest (sha256 b))"
| "sha256hash v = Inl TypeError"

section \<open>Numbers\<close>

text \<open>
  The value of a numeric expression: a finite double, an infinity (\<open>Infinity True\<close> the
  positive one) or \<open>NaN\<close>.  The library's arithmetic is one division, by the constant
  1000, two comparisons and \<^verbatim>\<open>Math.round\<close>.

  \<open>to_double x\<close> is the double nearest to the real \<open>x\<close>, a tie going to the even
  significand (IEEE 754, binary64): the significand has 53 bits, the exponent of its last
  bit is at least \<open>-1074\<close> (below that the subnormal numbers keep the spacing
  \<open>2 ^ -1074\<close>), and a result of magnitude \<open>2 ^ 1024\<close> or more is an infinity.
  \<open>scale_up\<close> counts the doublings that bring a magnitude below \<open>2 ^ 52\<close> into
  \<open>[2 ^ 52, 2 ^ 53)\<close>, at most 1074 of them; \<open>scale_down\<close> counts the halvings that
  bring a magnitude from \<open>2 ^ 53\<close> on below \<open>2 ^ 53\<close>, at most 971 for a finite double.
\<close>

datatype number = Finite real | Infinity bool | NaN

definition round_even :: "real \<Rightarrow> int" where
  "round_even y =
     (let f = \<lfloor>y\<rfloor>; d = y - of_int f
      in if d < 1 / 2 then f else if 1 / 2 < d then f + 1 else if even f then f else f + 1)"

fun scale_up :: "nat \<Rightarrow> real \<Rightarrow> nat" where
  "scale_up 0 y = 0"
| "scale_up (Suc n) y = (if 2 ^ 52 \<le> y then 0 else Suc (scale_up n (2 * y)))"

fun scale_down :: "nat \<Rightarrow> real \<Rightarrow> nat" where
  "scale_down 0 y = 0"
| "scale_down (Suc n) y = (if y < 2 ^ 53 then 0 else Suc (scale_down n (y / 2)))"

definition to_double :: "real \<Rightarrow> number" where
  "to_double x =
     (if \<bar>x\<bar> < 2 ^ 53 then
        (let k = scale_up 1074 \<bar>x\<bar> in Finite (of_int (round_even (x * 2 ^ k)) / 2 ^ k))
      else
        (let k = scale_down 971 \<bar>x\<bar>; r = of_int (round_even (x / 2 ^ k)) * 2 ^ k
         in if \<bar>r\<bar> < 2 ^ 1024 then Finite r else Infinity (0 < x)))"

section \<open>Requests, the network and the console\<close>

text \<open>
  A multipart form is the list of the parts appended to it; \<open>part_filename\<close> is the
  third argument of \<^verbatim>\<open>fd.append\<close>, absent in the two-argument call.  A request is the
  configuration given to \<^verbatim>\<open>axios\<close>; the constant headers and the fields that axios
  ignores (\<^verbatim>\<open>referrer\<close>, \<^verbatim>\<open>mode\<close>, \<^verbatim>\<open>body\<close>) are left out.
\<close>

record part =
  part_field :: string
  part_value :: jsval
  part_filename :: "jsval option"

record request =
  url :: jsval
  http_method :: string
  data :: "part list option"
  responseType :: jsval

text \<open>
  What a request comes to: \<open>Resolve d\<close> is a response whose \<^verbatim>\<open>data\<close> is \<open>d\<close>,
  \<open>Reject e\<close> is a network error or an HTTP status outside 2xx, for which axios rejects.
\<close>

datatype outcome = Resolve jsval | Reject jsval

text \<open>
  Everything outside the library: the network, which answers the \<open>n\<close>-th request of a
  run, the clock read by \<^verbatim>\<open>Date.now()\<close> in milliseconds, and the conversions of the
  language between numbers, objects and strings, which are taken as they come.
\<close>

record runtime =
  http :: "nat \<Rightarrow> request \<Rightarrow> outcome"
  date_now :: int
  number_to_string :: "real \<Rightarrow> string"
  object_to_string :: "jsval \<Rightarrow> string"
  string_to_number :: "string \<Rightarrow> number"

text \<open>The effects of a run: the requests sent and the errors written by \<^verbatim>\<open>console.error\<close>.\<close>

record world =
  requests :: "request list"
  console :: "error list"

text \<open>String conversion, as a template literal applies it.\<close>

fun to_string :: "runtime \<Rightarrow> jsval \<Rightarrow> string" where
  "to_string rt JUndefined = ''undefined''"
| "to_string rt JNull = ''null''"
| "to_string rt (JBool b) = (if b then ''true'' else ''false'')"
| "to_string rt (JNum x) = number_to_string rt x"
| "to_string rt (JInfinity b) = (if b then ''Infinity'' else ''-Infinity'')"
| "to_string rt JNaN = ''NaN''"
| "to_string rt (JStr s) = s"
| "to_string rt v = object_to_string rt v"

text \<open>
  Number conversion, as \<^verbatim>\<open>isNaN\<close>, the comparisons, the division and \<^verbatim>\<open>Math.round\<close>
  apply it.  An object is converted through its string.
\<close>

fun to_number :: "runtime \<Rightarrow> jsval \<Rightarrow> number" where
  "to_number rt JUndefined = NaN"
| "to_number rt JNull = Finite 0"
| "to_number rt (JBool b) = Finite (if b then 1 else 0)"
| "to_number rt (JNum x) = Finite x"
| "to_number rt (JInfinity b) = Infinity b"
| "to_number rt JNaN = NaN"
| "to_number rt (JStr s) = string_to_number rt s"
| "to_number rt v = string_to_number rt (object_to_string rt v)"

text \<open>\<^verbatim>\<open>a > b\<close> and \<^verbatim>\<open>a <= b\<close> on numbers; a comparison with \<open>NaN\<close> is false.\<close>

fun js_gt :: "number \<Rightarrow> number \<Rightarrow> bool" where
  "js_gt (Finite x) (Finite y) = (y < x)"
| "js_gt (Finite x) (Infinity b) = (\<not> b)"
| "js_gt (Infinity a) (Finite y) = a"
| "js_gt (Infinity a) (Infinity b) = (a \<and> \<not> b)"
| "js_gt a b = False"

fun js_le :: "number \<Rightarrow> number \<Rightarrow> bool" where
  "js_le (Finite x) (Finite y) = (x \<le> y)"
| "js_le (Finite x) (Infinity b) = b"
| "js_le (Infinity a) (Finite y) = (\<not> a)"
| "js_le (Infinity a) (Infinity b) = (if a then b else True)"
| "js_le a b = False"

text \<open>
  \<^verbatim>\<open>a / d\<close> for a positive finite double \<open>d\<close> (the library divides by 1000 only): the
  double nearest to the exact quotient.
\<close>

fun js_div :: "number \<Rightarrow> real \<Rightarrow> number" where
  "js_div (Finite x) d = to_double (x / d)"
| "js_div (Infinity b) d = Infinity b"
| "js_div NaN d = NaN"

text \<open>
  \<^verbatim>\<open>Math.round\<close> gives the nearest integer, a half going upwards; of a double it is a
  double again, so nothing is rounded twice.
\<close>

fun math_round :: "number \<Rightarrow> jsval" where
  "math_round (Finite x) = JNum (of_int \<lfloor>x + 1 / 2\<rfloor>)"
| "math_round (Infinity b) = JInfinity b"
| "math_round NaN = JNaN"

text \<open>The password rule, \<^verbatim>\<open>/^[a-z0-9]{6,20}$/i\<close>.\<close>

definition alnum :: "char \<Rightarrow> bool" where
  "alnum c =
     (let n = (of_char c :: nat)
      in (48 \<le> n \<and> n \<le> 57) \<or> (65 \<le> n \<and> n \<le> 90) \<or> (97 \<le> n \<and> n \<le> 122))"

definition password_regex_test :: "string \<Rightarrow> bool" where
  "password_regex_test s = (6 \<le> length s \<and> length s \<le> 20 \<and> list_all alnum s)"

text \<open>
  \<^verbatim>\<open>await axios(r)\<close>: the request is recorded, and the call gives the response's data or
  raises the rejection.
\<close>

definition axios :: "runtime \<Rightarrow> request \<Rightarrow> world \<Rightarrow> (error + jsval) \<times> world" where
  "axios rt r w =
     ((case http rt (length (requests w)) r of
         Resolve d \<Rightarrow> Inr d
       | Reject e \<Rightarrow> Inl (RequestFailed e)),
      w\<lparr>requests := requests w @ [r]\<rparr>)"

text \<open>
  \<^verbatim>\<open>try { ... } catch (e) { console.error(e); }\<close> around a whole function body: a raised
  error is written to the console and the function returns \<^verbatim>\<open>undefined\<close>.
\<close>

definition catch_log :: "(error + jsval) \<times> world \<Rightarrow> jsval \<times> world" where
  "catch_log r =
     (case r of
        (Inl e, w) \<Rightarrow> (JUndefined, w\<lparr>console := console w @ [e]\<rparr>)
      | (Inr v, w) \<Rightarrow> (v, w))"

section \<open>The operations of the library\<close>

subsection \<open>getServer\<close>

definition getServer_request :: "runtime \<Rightarrow> jsval \<Rightarrow> request" where
  "getServer_request rt code =
     \<lparr>url = JStr (''https://apiv2.gofile.io/getServer'' @
                    (if truthy code then ''?c='' @ to_string rt code else '''')),
      http_method = ''GET'', data = None, responseType = JUndefined\<rparr>"

definition getServer :: "runtime \<Rightarrow> jsval \<Rightarrow> world \<Rightarrow> jsval \<times> world" where
  "getServer rt code w =
     catch_log
       (case axios rt (getServer_request rt code) w of
          (res, w1) \<Rightarrow>
            (and_then res (\<lambda>d.
               and_then (get_prop d ''status'') (\<lambda>st.
                 if st \<noteq> JStr ''ok'' then Inl (FetchServerFailed d)
                 else and_then (get_prop d ''data'') (\<lambda>dd. get_prop dd ''server''))),
             w1))"

subsection \<open>uploadFiles\<close>

record FileUpload =
  file_data :: jsval
  fn :: jsval

text \<open>
  \<^verbatim>\<open>fd.append(field, value, name)\<close> of the form-data package: an array value raises
  \<^verbatim>\<open>Arrays are not supported.\<close> (the form emits an error that nobody listens to); any
  other value is recorded as it is given.
\<close>

fun is_array :: "jsval \<Rightarrow> bool" where
  "is_array (JArray xs) = True"
| "is_array v = False"

definition fd_append :: "part list \<Rightarrow> string \<Rightarrow> jsval \<Rightarrow> jsval option \<Rightarrow> error + part list" where
  "fd_append fd field v name =
     (if is_array v then Inl ArraysNotSupported
      else Inr (fd @ [\<lparr>part_field = field, part_value = v, part_filename = name\<rparr>]))"

definition append_file :: "part list \<Rightarrow> FileUpload \<Rightarrow> error + part list" where
  "append_file fd f =
     (if fn f = JStr '''' then fd_append fd ''filesUploaded'' (file_data f) None
      else fd_append fd ''filesUploaded'' (file_data f) (Some (fn f)))"

text \<open>\<^verbatim>\<open>files.forEach(f => ...)\<close>: the first error ends the loop.\<close>

fun append_files :: "part list \<Rightarrow> FileUpload list \<Rightarrow> error + part list" where
  "append_files fd [] = Inr fd"
| "append_files fd (f # fs) = and_then (append_file fd f) (\<lambda>fd'. append_files fd' fs)"

definition append_description :: "runtime \<Rightarrow> jsval \<Rightarrow> part list \<Rightarrow> error + part list" where
  "append_description rt options fd =
     and_then (get_prop options ''description'') (\<lambda>d.
       if truthy d then
         and_then (get_prop d ''length'') (\<lambda>n.
           if js_le (to_number rt n) (Finite 1000) then fd_append fd ''description'' d None
           else Inl (InvalidField ''description''))
       else Inr fd)"

definition append_password :: "runtime \<Rightarrow> jsval \<Rightarrow> part list \<Rightarrow> error + part list" where
  "append_password rt options fd =
     and_then (get_prop options ''password'') (\<lambda>pw.
       if truthy pw then
         if password_regex_test (to_string rt pw) then fd_append fd ''password'' pw None
         else Inl (InvalidField ''password'')
       else Inr fd)"

text \<open>
  The condition of the source is
  \<^verbatim>\<open>!isNaN(e) && e > 10000000000 ? e : e / 1000 > Date.now() / 1000\<close>,
  which JavaScript reads as \<^verbatim>\<open>(!isNaN(e) && e > 10000000000) ? e : (e / 1000 > Date.now() / 1000)\<close>:
  above the threshold the condition is the value itself.  \<^verbatim>\<open>Date.now()\<close> is a whole number
  of milliseconds of magnitude at most 8.64e15, which a double holds exactly.
\<close>

definition append_expire :: "runtime \<Rightarrow> jsval \<Rightarrow> part list \<Rightarrow> error + part list" where
  "append_expire rt options fd =
     and_then (get_prop options ''expire'') (\<lambda>e.
       if truthy e then
         (let n = to_number rt e in
          if (if n \<noteq> NaN \<and> js_gt n (Finite 10000000000) then truthy e
              else js_gt (js_div n 1000) (js_div (Finite (real_of_int (date_now rt))) 1000))
          then
            fd_append fd ''expire''
              (math_round (if js_gt n (Finite 10000000000) then n else js_div n 1000)) None
          else Inl (InvalidField ''expire''))
       else Inr fd)"

text \<open>
  The form built between the broker call and the upload call: the files, the category
  \<^verbatim>\<open>fd.append("category", "file")\<close>, then the options.
\<close>

definition category_part :: part where
  "category_part =
     \<lparr>part_field = ''category'', part_value = JStr ''file'', part_filename = None\<rparr>"

definition build_form :: "runtime \<Rightarrow> FileUpload list \<Rightarrow> jsval \<Rightarrow> error + part list" where
  "build_form rt files options =
     and_then (append_files [] files) (\<lambda>fd.
       and_then (append_description rt options (fd @ [category_part])) (\<lambda>fd.
         and_then (append_password rt options fd) (append_expire rt options)))"

definition upload_request :: "runtime \<Rightarrow> jsval \<Rightarrow> part list \<Rightarrow> request" where
  "upload_request rt server fd =
     \<lparr>url = JStr (''https://'' @ to_string rt server @ ''.gofile.io/upload''),
      http_method = ''POST'', data = Some fd, responseType = JUndefined\<rparr>"

definition uploadFiles ::
  "runtime \<Rightarrow> FileUpload list \<Rightarrow> jsval \<Rightarrow> world \<Rightarrow> jsval \<times> world" where
  "uploadFiles rt files options w =
     (case getServer rt JUndefined w of
        (server, w1) \<Rightarrow>
          catch_log
            (case build_form rt files (default_arg options (JObj [])) of
               Inl e \<Rightarrow> (Inl e, w1)
             | Inr fd \<Rightarrow>
                 (case axios rt (upload_request rt server fd) w1 of
                    (res, w2) \<Rightarrow>
                      (and_then res (\<lambda>d.
                         and_then (get_prop d ''status'') (\<lambda>st.
                           if st \<noteq> JStr ''ok'' then Inl (UploadFailed d)
                           else get_prop d ''data'')),
                       w2))))"

subsection \<open>uploadFile\<close>

text \<open>
  The errors of \<open>uploadFile\<close> are raised outside any \<^verbatim>\<open>try\<close>, so they reach the caller:
  the result is \<open>Inl\<close> of the error, or \<open>Inr\<close> of what \<open>uploadFiles\<close> returns.
\<close>

definition uploadFile ::
  "runtime \<Rightarrow> jsval \<Rightarrow> jsval \<Rightarrow> jsval \<Rightarrow> world \<Rightarrow> error + jsval \<times> world" where
  "uploadFile rt arg1 arg2 arg3 w =
     (if instanceof_Buffer arg1 then
        (if truthy arg2 \<and> arg2 \<noteq> JStr '''' \<and> \<not> typeof_object arg2 then
           Inr (uploadFiles rt [\<lparr>file_data = arg1, fn = arg2\<rparr>] arg3 w)
         else Inl FilenameBlank)
      else if instanceof_Readable arg1 then
        (if truthy arg2 \<and> arg2 \<noteq> JStr '''' \<and> \<not> typeof_object arg2 then
           Inr (uploadFiles rt [\<lparr>file_data = arg1, fn = arg2\<rparr>] arg3 w)
         else Inr (uploadFiles rt [\<lparr>file_data = arg1, fn = JUndefined\<rparr>] arg2 w))
      else Inl InvalidFileType)"

subsection \<open>removeUpload\<close>

definition removeUpload_request :: "runtime \<Rightarrow> jsval \<Rightarrow> jsval \<Rightarrow> jsval \<Rightarrow> request" where
  "removeUpload_request rt server code removalCode =
     \<lparr>url = JStr (''https://'' @ to_string rt server @ ''.gofile.io/deleteUpload?c='' @
                    to_string rt code @ ''&rc='' @ to_string rt removalCode),
      http_method = ''GET'', data = None, responseType = JUndefined\<rparr>"

definition removeUpload :: "runtime \<Rightarrow> jsval \<Rightarrow> jsval \<Rightarrow> world \<Rightarrow> jsval \<times> world" where
  "removeUpload rt code removalCode w =
     (case getServer rt code w of
        (server, w1) \<Rightarrow>
          catch_log
            (case axios rt (removeUpload_request rt server code removalCode) w1 of
               (res, w2) \<Rightarrow>
                 (and_then res (\<lambda>d.
                    and_then (get_prop d ''status'') (\<lambda>st.
                      if st \<noteq> JStr ''ok'' then Inl (RemoveFailed d)
                      else get_prop d ''data'')),
                  w2)))"

subsection \<open>getUploadInfo\<close>

text \<open>
  The query of the info request:
  \<^verbatim>\<open>p && p !== "" ? `&p=${sha256hash(p)}` : ""\<close>.
\<close>

definition passphrase_query :: "jsval \<Rightarrow> error + string" where
  "passphrase_query p =
     (if truthy p \<and> p \<noteq> JStr '''' then and_then (sha256hash p) (\<lambda>h. Inr (''&p='' @ h))
      else Inr '''')"

definition getUploadInfo_request :: "runtime \<Rightarrow> jsval \<Rightarrow> jsval \<Rightarrow> string \<Rightarrow> request" where
  "getUploadInfo_request rt server code q =
     \<lparr>url = JStr (''https://'' @ to_string rt server @ ''.gofile.io/getUpload?c='' @
                    to_string rt code @ q),
      http_method = ''GET'', data = None, responseType = JUndefined\<rparr>"

definition getUploadInfo :: "runtime \<Rightarrow> jsval \<Rightarrow> jsval \<Rightarrow> world \<Rightarrow> jsval \<times> world" where
  "getUploadInfo rt code p w =
     (case getServer rt code w of
        (server, w1) \<Rightarrow>
          catch_log
            (case passphrase_query (default_arg p (JStr '''')) of
               Inl e \<Rightarrow> (Inl e, w1)
             | Inr q \<Rightarrow>
                 (case axios rt (getUploadInfo_request rt server code q) w1 of
                    (res, w2) \<Rightarrow>
                      (and_then res (\<lambda>d.
                         and_then (get_prop d ''status'') (\<lambda>st.
                           if st \<noteq> JStr ''ok'' then Inl (FetchInfoFailed d)
                           else get_prop d ''data'')),
                       w2))))"

subsection \<open>downloadFiles\<close>

definition download_request :: "jsval \<Rightarrow> jsval \<Rightarrow> request" where
  "download_request link rtype =
     \<lparr>url = link, http_method = ''GET'', data = None, responseType = rtype\<rparr>"

text \<open>
  \<^verbatim>\<open>.map(f => axios({url: f.link, ..., responseType}))\<close>: the requests are sent one after
  the other, in the order of the list, without waiting for any answer.  Each pending
  request is given by what it will come to.  Reading \<^verbatim>\<open>f.link\<close> can raise, and then the
  requests sent so far stay sent.
\<close>

fun send_all :: "runtime \<Rightarrow> jsval \<Rightarrow> jsval list \<Rightarrow> world \<Rightarrow> (error + outcome list) \<times> world" where
  "send_all rt rtype [] w = (Inr [], w)"
| "send_all rt rtype (f # fs) w =
     (case get_prop f ''link'' of
        Inl e \<Rightarrow> (Inl e, w)
      | Inr link \<Rightarrow>
          (case send_all rt rtype fs (w\<lparr>requests := requests w @ [download_request link rtype]\<rparr>) of
             (Inl e, w') \<Rightarrow> (Inl e, w')
           | (Inr outs, w') \<Rightarrow>
               (Inr (http rt (length (requests w)) (download_request link rtype) # outs), w')))"

text \<open>
  \<^verbatim>\<open>await Promise.all(reqs)\<close>.  The answers arrive in some order, the schedule: a list of
  positions in \<open>reqs\<close>.  \<^verbatim>\<open>Promise.all\<close> keeps one slot per request; it is fulfilled,
  with the values in the order of \<open>reqs\<close>, once every slot is filled, it is rejected by
  the first rejection that arrives, and it stays pending while answers are missing.
\<close>

datatype settled = Pending | Fulfilled "jsval list" | Rejected jsval

fun all_filled :: "jsval option list \<Rightarrow> jsval list option" where
  "all_filled [] = Some []"
| "all_filled (None # slots) = None"
| "all_filled (Some v # slots) = map_option ((#) v) (all_filled slots)"

fun await_all :: "nat list \<Rightarrow> outcome list \<Rightarrow> jsval option list \<Rightarrow> settled" where
  "await_all [] outs slots =
     (case all_filled slots of Some vs \<Rightarrow> Fulfilled vs | None \<Rightarrow> Pending)"
| "await_all (i # sched) outs slots =
     (case all_filled slots of
        Some vs \<Rightarrow> Fulfilled vs
      | None \<Rightarrow>
          if i < length outs then
            (case outs ! i of
               Reject e \<Rightarrow> Rejected e
             | Resolve d \<Rightarrow> await_all sched outs (slots[i := Some d]))
          else await_all sched outs slots)"

definition promise_all :: "nat list \<Rightarrow> outcome list \<Rightarrow> settled" where
  "promise_all sched outs = await_all sched outs (replicate (length outs) None)"

text \<open>
  \<open>downloadFiles\<close> returns \<open>None\<close> when the \<^verbatim>\<open>await\<close> never ends, that is when the
  schedule leaves \<^verbatim>\<open>Promise.all\<close> pending.
\<close>

definition manifest_entries :: "jsval \<Rightarrow> error + jsval list" where
  "manifest_entries uploadInfo =
     and_then (get_prop uploadInfo ''files'') (\<lambda>files.
       and_then (object_keys files) (\<lambda>ks. map_err (get_prop files) ks))"

definition downloadFiles ::
  "runtime \<Rightarrow> nat list \<Rightarrow> jsval \<Rightarrow> jsval \<Rightarrow> jsval \<Rightarrow> world \<Rightarrow> (jsval \<times> world) option" where
  "downloadFiles rt sched code p respType w =
     (case getUploadInfo rt code (default_arg p (JStr '''')) w of
        (uploadInfo, w1) \<Rightarrow>
          (case manifest_entries uploadInfo of
             Inl e \<Rightarrow> Some (catch_log (Inl e, w1))
           | Inr fs \<Rightarrow>
               (case send_all rt (default_arg respType (JStr ''arraybuffer'')) fs w1 of
                  (Inl e, w2) \<Rightarrow> Some (catch_log (Inl e, w2))
                | (Inr outs, w2) \<Rightarrow>
                    (case promise_all sched outs of
                       Pending \<Rightarrow> None
                     | Rejected e \<Rightarrow> Some (catch_log (Inl (RequestFailed e), w2))
                     | Fulfilled ds \<Rightarrow> Some (JArray ds, w2)))))"

section \<open>Vocabulary of the statements\<close>

text \<open>
  The values \<^verbatim>\<open>Object.keys(v).map(k => v[k])\<close> enumerates, for a well-formed \<open>v\<close>: an
  object has no key twice, and \<^verbatim>\<open>undefined\<close> and \<^verbatim>\<open>null\<close> have no keys at all.
\<close>

fun own_values :: "jsval \<Rightarrow> jsval list" where
  "own_values (JObj kvs) = map snd kvs"
| "own_values (JArray xs) = xs"
| "own_values (JStr s) = map (\<lambda>c. JStr [c]) s"
| "own_values (JBuffer b) = map (\<lambda>x. JNum (real (unat x))) b"
| "own_values v = []"

fun well_formed :: "jsval \<Rightarrow> bool" where
  "well_formed JUndefined = False"
| "well_formed JNull = False"
| "well_formed (JObj kvs) = distinct (map fst kvs)"
| "well_formed v = True"

text \<open>The \<^verbatim>\<open>link\<close> of a manifest entry.\<close>

definition link_of :: "jsval \<Rightarrow> jsval" where
  "link_of f = (case get_prop f ''link'' of Inr l \<Rightarrow> l | Inl e \<Rightarrow> JUndefined)"

text \<open>
  A request has failed when it is rejected (a network error) or answered with a body whose
  status is not \<open>ok\<close>.
\<close>

definition failed :: "outcome \<Rightarrow> bool" where
  "failed out =
     (case out of Reject e \<Rightarrow> True | Resolve d \<Rightarrow> get_prop d ''status'' \<noteq> Inr (JStr ''ok''))"

section \<open>A mock service\<close>

text \<open>
  Concrete runs need a concrete world: an empty trace, a runtime whose network is a given
  function and whose clock is a given instant, and the bodies a healthy service answers
  with.
\<close>

definition w0 :: world where
  "w0 = \<lparr>requests = [], console = []\<rparr>"

definition mock_runtime :: "(nat \<Rightarrow> request \<Rightarrow> outcome) \<Rightarrow> int \<Rightarrow> runtime" where
  "mock_runtime net now =
     \<lparr>http = net, date_now = now, number_to_string = (\<lambda>x. ''0''),
      object_to_string = (\<lambda>v. ''[object Object]''), string_to_number = (\<lambda>s. NaN)\<rparr>"

definition broker_ok :: jsval where
  "broker_ok =
     JObj [(''status'', JStr ''ok''), (''data'', JObj [(''server'', JStr ''srv-file1'')])]"

definition upload_ok :: jsval where
  "upload_ok =
     JObj [(''status'', JStr ''ok''),
           (''data'', JObj [(''code'', JStr ''abc123''), (''removalCode'', JStr ''xyz'')])]"

definition broker_error :: jsval where
  "broker_error = JObj [(''status'', JStr ''error''), (''data'', JObj [])]"

definition mock_service :: "nat \<Rightarrow> request \<Rightarrow> outcome" where
  "mock_service n r = (if n = 0 then Resolve broker_ok else Resolve upload_ok)"

text \<open>A service whose broker refuses while its workers answer.\<close>

definition broker_down_service :: "nat \<Rightarrow> request \<Rightarrow> outcome" where
  "broker_down_service n r = (if n = 0 then Resolve broker_error else Resolve upload_ok)"

text \<open>An upload of two files, and a service that hands out its manifest and the files.\<close>

definition manifest_ab :: jsval where
  "manifest_ab =
     JObj [(''0'', JObj [(''name'', JStr ''a.txt''),
                         (''link'', JStr ''https://srv-file1.gofile.io/download/abc123/a.txt'')]),
           (''1'', JObj [(''name'', JStr ''b.txt''),
                         (''link'', JStr ''https://srv-file1.gofile.io/download/abc123/b.txt'')])]"

definition info_ab :: jsval where
  "info_ab =
     JObj [(''status'', JStr ''ok''),
           (''data'', JObj [(''code'', JStr ''abc123''), (''files'', manifest_ab)])]"

definition download_service :: "nat \<Rightarrow> request \<Rightarrow> outcome" where
  "download_service n r =
     (if n = 0 then Resolve broker_ok
      else if n = 1 then Resolve info_ab
      else if n = 2 then Resolve (JBuffer [97])
      else Resolve (JBuffer [98]))"

definition failing_service :: "nat \<Rightarrow> request \<Rightarrow> outcome" where
  "failing_service n r = (if n = 3 then Reject (JStr ''404'') else download_service n r)"

section \<open>Properties of the passphrase hash\<close>

lemma hex_digit_lower: "n < 16 \<Longrightarrow> hex_digit n \<in> set ''0123456789abcdef''"
  unfolding hex_digit_def by (rule nth_mem) simp

lemma nibble_bound: "unat ((w :: u32) AND 15) < 16"
proof -
  have "unat (w AND 15) \<le> unat (15 :: u32)"
    by (rule word_and_le1 [THEN word_le_nat_alt [THEN iffD1]])
  then show ?thesis by simp
qed

lemma length_hex32: "length (hex32 w) = 8"
  by (simp add: hex32_def)

lemma set_hex32: "set (hex32 w) \<subseteq> set ''0123456789abcdef''"
  unfolding hex32_def using hex_digit_lower [OF nibble_bound] by auto

lemma length_hex_digest: "length (hex_digest s) = 64"
  by (simp add: hex_digest_def length_hex32 split: prod.splits)

lemma set_hex_digest: "set (hex_digest s) \<subseteq> set ''0123456789abcdef''"
proof -
  have "set (hex32 w) \<subseteq> set ''0123456789abcdef''" for w
    by (rule set_hex32)
  then show ?thesis
    unfolding hex_digest_def by (auto simp del: set_simps split: prod.splits)
qed

text \<open>The digests of the empty string and of \<open>abc\<close>, as FIPS 180-4 gives them.\<close>

lemma sha256hash_empty:
  "sha256hash (JStr '''') =
     Inr ''e3b0c44298fc1c149afbf4c8996fb92427ae41e4649b934ca495991b7852b855''"
  by code_simp


text \<open>
  C9.  For every string, the empty one included, \<open>sha256hash\<close> raises no error and
  returns a digest of 64 characters, each a digit or a lowercase letter from \<open>a\<close> to
  \<open>f\<close>; equal strings have equal digests.
\<close>

theorem sha256hash_total_hex64:
  "\<exists>d. sha256hash (JStr s) = Inr d \<and> length d = 64 \<and>
       set d \<subseteq> set ''0123456789abcdef'' \<and>
       (\<forall>t. t = s \<longrightarrow> sha256hash (JStr t) = Inr d)"
  by (simp add: length_hex_digest set_hex_digest del: set_simps)

theorem sha256hash_total_hex64_witness:
  "\<exists>d. sha256hash (JStr '''') = Inr d \<and> length d = 64 \<and>
       set d \<subseteq> set ''0123456789abcdef''"
  using sha256hash_total_hex64 [of "''''"] by blast

section \<open>Server resolution\<close>

lemma get_prop_Inl: "get_prop v k = Inl e \<Longrightarrow> e = TypeError"
  by (cases v) auto

lemma getServer_requests:
  "requests (snd (getServer rt code w)) = requests w @ [getServer_request rt code]"
  by (simp add: getServer_def axios_def catch_log_def and_then_def split: outcome.splits sum.splits)

lemma getServer_console_new:
  "\<exists>l. console (snd (getServer rt code w)) = console w @ l \<and> (\<forall>e \<in> set l. \<forall>k. e \<noteq> InvalidField k)"
  by (auto simp add: getServer_def axios_def catch_log_def and_then_def
      split: outcome.splits sum.splits dest: get_prop_Inl)

lemma mock_getServer:
  "getServer (mock_runtime mock_service now) JUndefined w0 =
     (JStr ''srv-file1'',
      \<lparr>requests = [getServer_request (mock_runtime mock_service now) JUndefined], console = []\<rparr>)"
  by (simp add: getServer_def axios_def catch_log_def and_then_def mock_runtime_def
      mock_service_def broker_ok_def w0_def)

text \<open>
  C6, as amended.  Whatever body \<open>d\<close> the broker answers with: when its status is not
  \<open>ok\<close>, \<open>getServer\<close> does not fail towards its caller: the server-resolution error
  \<open>FetchServerFailed d\<close> is raised and caught inside the call, which writes it to the
  console and returns \<^verbatim>\<open>undefined\<close>; when the status is \<open>ok\<close>, \<open>getServer\<close> returns
  the \<open>server\<close> field of the payload \<open>data\<close> and writes nothing.
\<close>

theorem getServer_status:
  assumes "http rt (length (requests w)) (getServer_request rt code) = Resolve d"
  shows "(\<forall>st. get_prop d ''status'' = Inr st \<and> st \<noteq> JStr ''ok'' \<longrightarrow>
            getServer rt code w =
              (JUndefined, w\<lparr>requests := requests w @ [getServer_request rt code],
                              console := console w @ [FetchServerFailed d]\<rparr>)) \<and>
         (\<forall>dd server. get_prop d ''status'' = Inr (JStr ''ok'') \<and>
            get_prop d ''data'' = Inr dd \<and> get_prop dd ''server'' = Inr server \<longrightarrow>
            getServer rt code w =
              (server, w\<lparr>requests := requests w @ [getServer_request rt code]\<rparr>))"
  using assms by (simp add: getServer_def axios_def catch_log_def and_then_def)

theorem getServer_status_witness:
  "getServer (mock_runtime mock_service 0) JUndefined w0 =
     (JStr ''srv-file1'',
      \<lparr>requests = [getServer_request (mock_runtime mock_service 0) JUndefined],
       console = []\<rparr>) \<and>
   getServer (mock_runtime (\<lambda>n r. Resolve broker_error) 0) JUndefined w0 =
     (JUndefined,
      \<lparr>requests = [getServer_request (mock_runtime (\<lambda>n r. Resolve broker_error) 0) JUndefined],
       console = [FetchServerFailed broker_error]\<rparr>)"
  using getServer_status [of "mock_runtime mock_service 0" w0 JUndefined broker_ok]
    getServer_status [of "mock_runtime (\<lambda>n r. Resolve broker_error) 0" w0 JUndefined broker_error]
  by (simp add: mock_runtime_def mock_service_def broker_ok_def broker_error_def w0_def)

text \<open>
  C6, as stated, fails.  When the broker answers with the status \<open>error\<close>, the call of
  \<open>getServer\<close> does not fail: it returns \<^verbatim>\<open>undefined\<close>, and the error is only written
  to the console.  Its caller carries on: \<open>uploadFiles\<close> takes \<^verbatim>\<open>undefined\<close> for the
  hostname, posts the form to \<^verbatim>\<open>https://undefined.gofile.io/upload\<close> and returns the
  payload of the answer.
\<close>

theorem getServer_status_counterexample:
  "getServer (mock_runtime broker_down_service 0) JUndefined w0 =
     (JUndefined,
      \<lparr>requests = [getServer_request (mock_runtime broker_down_service 0) JUndefined],
       console = [FetchServerFailed broker_error]\<rparr>) \<and>
   uploadFiles (mock_runtime broker_down_service 0) [] JUndefined w0 =
     (JObj [(''code'', JStr ''abc123''), (''removalCode'', JStr ''xyz'')],
      \<lparr>requests =
         [getServer_request (mock_runtime broker_down_service 0) JUndefined,
          \<lparr>url = JStr ''https://undefined.gofile.io/upload'', http_method = ''POST'',
            data = Some [category_part], responseType = JUndefined\<rparr>],
       console = [FetchServerFailed broker_error]\<rparr>)"
proof -
  have a: "getServer (mock_runtime broker_down_service 0) JUndefined w0 =
     (JUndefined,
      \<lparr>requests = [getServer_request (mock_runtime broker_down_service 0) JUndefined],
       console = [FetchServerFailed broker_error]\<rparr>)"
    by (simp add: getServer_def axios_def catch_log_def and_then_def mock_runtime_def
        broker_down_service_def broker_error_def w0_def)
  have b: "build_form (mock_runtime broker_down_service 0) [] (default_arg JUndefined (JObj [])) =
          Inr [category_part]"
    by (simp add: build_form_def default_arg_def and_then_def append_description_def
        append_password_def append_expire_def)
  have "uploadFiles (mock_runtime broker_down_service 0) [] JUndefined w0 =
     (JObj [(''code'', JStr ''abc123''), (''removalCode'', JStr ''xyz'')],
      \<lparr>requests =
         [getServer_request (mock_runtime broker_down_service 0) JUndefined,
          \<lparr>url = JStr ''https://undefined.gofile.io/upload'', http_method = ''POST'',
            data = Some [category_part], responseType = JUndefined\<rparr>],
       console = [FetchServerFailed broker_error]\<rparr>)"
    unfolding uploadFiles_def a b
    by (simp add: axios_def catch_log_def and_then_def mock_runtime_def
        broker_down_service_def upload_ok_def upload_request_def)
  with a show ?thesis by simp
qed

section \<open>Upload\<close>

lemma uploadFiles_invalid:
  assumes "getServer rt JUndefined w = (server, w1)"
      and "build_form rt files (default_arg options (JObj [])) = Inl e"
  shows "uploadFiles rt files options w = (JUndefined, w1\<lparr>console := console w1 @ [e]\<rparr>)"
  using assms by (simp add: uploadFiles_def catch_log_def)

lemma uploadFiles_posted:
  assumes "getServer rt JUndefined w = (server, w1)"
      and "build_form rt files (default_arg options (JObj [])) = Inr fd"
  shows "uploadFiles rt files options w =
           catch_log
             (case http rt (length (requests w1)) (upload_request rt server fd) of
                Resolve d \<Rightarrow>
                  and_then (get_prop d ''status'') (\<lambda>st.
                    if st \<noteq> JStr ''ok'' then Inl (UploadFailed d) else get_prop d ''data'')
              | Reject e \<Rightarrow> Inl (RequestFailed e),
              w1\<lparr>requests := requests w1 @ [upload_request rt server fd]\<rparr>)"
  using assms by (simp add: uploadFiles_def axios_def and_then_def split: outcome.splits)

lemma uploadFiles_posted_requests:
  assumes "getServer rt JUndefined w = (server, w1)"
      and "build_form rt files (default_arg options (JObj [])) = Inr fd"
  shows "requests (snd (uploadFiles rt files options w)) =
           requests w1 @ [upload_request rt server fd]"
  unfolding uploadFiles_posted [OF assms]
  by (simp add: catch_log_def and_then_def split: outcome.splits sum.splits)

lemma uploadFiles_requests:
  "requests (snd (uploadFiles rt files options w)) =
     requests w @ getServer_request rt JUndefined #
       (case build_form rt files (default_arg options (JObj [])) of
          Inl e \<Rightarrow> []
        | Inr fd \<Rightarrow> [upload_request rt (fst (getServer rt JUndefined w)) fd])"
proof (cases "getServer rt JUndefined w")
  case (Pair server w1)
  then have w1: "requests w1 = requests w @ [getServer_request rt JUndefined]"
    using getServer_requests [of rt JUndefined w] by simp
  show ?thesis
  proof (cases "build_form rt files (default_arg options (JObj []))")
    case (Inl e)
    then show ?thesis using uploadFiles_invalid [OF Pair Inl] w1 by simp
  next
    case (Inr fd)
    then show ?thesis using uploadFiles_posted_requests [OF Pair Inr] w1 Pair by simp
  qed
qed

lemma uploadFiles_console_new:
  "\<exists>l. console (snd (uploadFiles rt files options w)) = console w @ l \<and>
       (\<forall>e \<in> set l. \<forall>k. e = InvalidField k \<longrightarrow>
          build_form rt files (default_arg options (JObj [])) = Inl (InvalidField k))"
proof (cases "getServer rt JUndefined w")
  case (Pair server w1)
  obtain l1 where l1: "console w1 = console w @ l1" "\<forall>e \<in> set l1. \<forall>k. e \<noteq> InvalidField k"
    using getServer_console_new [of rt JUndefined w] Pair by auto
  show ?thesis
  proof (cases "build_form rt files (default_arg options (JObj []))")
    case (Inl e)
    have "console (snd (uploadFiles rt files options w)) = console w @ (l1 @ [e])"
      using uploadFiles_invalid [OF Pair Inl] l1 by simp
    moreover have "\<forall>e' \<in> set (l1 @ [e]). \<forall>k. e' = InvalidField k \<longrightarrow>
        build_form rt files (default_arg options (JObj [])) = Inl (InvalidField k)"
      using l1(2) Inl by auto
    ultimately show ?thesis by blast
  next
    case (Inr fd)
    have "\<exists>l2. console (snd (uploadFiles rt files options w)) = console w1 @ l2 \<and>
            (\<forall>e \<in> set l2. \<forall>k. e \<noteq> InvalidField k)"
      unfolding uploadFiles_posted [OF Pair Inr]
      by (auto simp add: catch_log_def and_then_def split: outcome.splits sum.splits
          dest: get_prop_Inl)
    then obtain l2 where l2: "console (snd (uploadFiles rt files options w)) = console w1 @ l2"
      "\<forall>e \<in> set l2. \<forall>k. e \<noteq> InvalidField k" by blast
    have "console (snd (uploadFiles rt files options w)) = console w @ (l1 @ l2)"
      using l1 l2 by simp
    moreover have "\<forall>e' \<in> set (l1 @ l2). \<forall>k. e' = InvalidField k \<longrightarrow>
        build_form rt files (default_arg options (JObj [])) = Inl (InvalidField k)"
      using l1(2) l2(2) by auto
    ultimately show ?thesis by blast
  qed
qed

text \<open>
  The rounding at known values: the double written \<^verbatim>\<open>0.1\<close>, and two ties, which go to
  the even significand.
\<close>

lemma to_double_values:
  "to_double (1 / 10) = Finite (3602879701896397 / 36028797018963968)"
  "to_double 9007199254740993 = Finite 9007199254740992"
  "to_double 9007199254740995 = Finite 9007199254740996"
  by code_simp+

text \<open>
  A whole number of magnitude below \<open>2 ^ 53\<close> is a double, and so is every time value.
\<close>

lemma round_even_int: "round_even (of_int j) = j"
  by (simp add: round_even_def)

lemma to_double_int:
  assumes "\<bar>real_of_int n\<bar> < 2 ^ 53"
  shows "to_double (of_int n) = Finite (of_int n)"
proof -
  have "round_even (real_of_int n * 2 ^ k) = n * 2 ^ k" for k
    using round_even_int [of "n * 2 ^ k"] by simp
  then show ?thesis
    using assms by (simp add: to_double_def Let_def)
qed

lemma expire_seconds_quotients:
  "js_div (Finite 1762149600) 1000 = Finite (3784187451329741 / 2147483648)"
  "js_div (Finite (real_of_int 1762146000000)) 1000 = Finite 1762146000"
  by code_simp+

text \<open>
  Two expirations a fraction of a millisecond apart have the same quotient by 1000, so
  the later one does not pass a clock at the earlier one.
\<close>

lemma expire_close_quotients:
  "js_div (Finite (8866461766385665 / 140737488355328)) 1000 =
   js_div (Finite (real_of_int 63)) 1000"
  by code_simp

lemma build_form_expire_only:
  "append_files [] [] = Inr []"
  "append_description rt (JObj [(''expire'', v)]) fd = Inr fd"
  "append_password rt (JObj [(''expire'', v)]) fd = Inr fd"
  by (simp_all add: append_description_def append_password_def and_then_def)

lemma build_form_seconds:
  "build_form (mock_runtime mock_service 1762146000000) []
     (default_arg (JObj [(''expire'', JNum 1762149600)]) (JObj [])) =
   Inl (InvalidField ''expire'')"
proof -
  have "append_expire (mock_runtime mock_service 1762146000000)
          (JObj [(''expire'', JNum 1762149600)]) [category_part] =
        Inl (InvalidField ''expire'')"
    unfolding append_expire_def mock_runtime_def
    by (simp add: and_then_def expire_seconds_quotients del: js_div.simps of_int_numeral)
  then show ?thesis
    by (simp add: build_form_def default_arg_def and_then_def build_form_expire_only)
qed

lemma build_form_milliseconds:
  assumes "10000000000 < x"
  shows "build_form (mock_runtime mock_service now) []
           (default_arg (JObj [(''expire'', JNum x)]) (JObj [])) =
         Inr [category_part,
              \<lparr>part_field = ''expire'', part_value = JNum (of_int \<lfloor>x + 1 / 2\<rfloor>),
                part_filename = None\<rparr>]"
proof -
  have "append_expire (mock_runtime mock_service now) (JObj [(''expire'', JNum x)])
          [category_part] =
        Inr [category_part,
             \<lparr>part_field = ''expire'', part_value = JNum (of_int \<lfloor>x + 1 / 2\<rfloor>),
               part_filename = None\<rparr>]"
    using assms by (simp add: append_expire_def and_then_def fd_append_def)
  then show ?thesis
    by (simp add: build_form_def default_arg_def and_then_def build_form_expire_only)
qed

text \<open>
  C1.  The expiration check at expirations one hour away from the clock, with the clock
  at 1762146000000 ms and a healthy service.

  The expiration 1762149600, one hour ahead and given in seconds, is not above
  10,000,000,000, so the code divides it by 1000 and compares the quotient with the clock
  in seconds: the call writes the invalid-option error for \<open>expire\<close>, returns
  \<^verbatim>\<open>undefined\<close> and sends no upload request.

  The expiration 1762149600000, the same instant in milliseconds, is above
  10,000,000,000, so the condition is the value itself and nothing is compared with the
  clock: the upload request is sent and its form carries 1762149600000, not the whole
  seconds 1762149600.

  The expiration 1762142400000, one hour in the past in milliseconds, is accepted in the
  same way and sent as it is.
\<close>

theorem expire_units_defect:
  "uploadFiles (mock_runtime mock_service 1762146000000) []
     (JObj [(''expire'', JNum 1762149600)]) w0 =
     (JUndefined,
      \<lparr>requests = [getServer_request (mock_runtime mock_service 1762146000000) JUndefined],
       console = [InvalidField ''expire'']\<rparr>) \<and>
   uploadFiles (mock_runtime mock_service 1762146000000) []
     (JObj [(''expire'', JNum 1762149600000)]) w0 =
     (JObj [(''code'', JStr ''abc123''), (''removalCode'', JStr ''xyz'')],
      \<lparr>requests =
         [getServer_request (mock_runtime mock_service 1762146000000) JUndefined,
          upload_request (mock_runtime mock_service 1762146000000) (JStr ''srv-file1'')
            [category_part,
             \<lparr>part_field = ''expire'', part_value = JNum 1762149600000,
               part_filename = None\<rparr>]],
       console = []\<rparr>) \<and>
   uploadFiles (mock_runtime mock_service 1762146000000) []
     (JObj [(''expire'', JNum 1762142400000)]) w0 =
     (JObj [(''code'', JStr ''abc123''), (''removalCode'', JStr ''xyz'')],
      \<lparr>requests =
         [getServer_request (mock_runtime mock_service 1762146000000) JUndefined,
          upload_request (mock_runtime mock_service 1762146000000) (JStr ''srv-file1'')
            [category_part,
             \<lparr>part_field = ''expire'', part_value = JNum 1762142400000,
               part_filename = None\<rparr>]],
       console = []\<rparr>)"
proof -
  have b: "build_form (mock_runtime mock_service 1762146000000) []
             (default_arg (JObj [(''expire'', JNum 1762149600000)]) (JObj [])) =
           Inr [category_part,
                \<lparr>part_field = ''expire'', part_value = JNum 1762149600000,
                  part_filename = None\<rparr>]"
    using build_form_milliseconds [of 1762149600000 1762146000000] by simp
  have c: "build_form (mock_runtime mock_service 1762146000000) []
             (default_arg (JObj [(''expire'', JNum 1762142400000)]) (JObj [])) =
           Inr [category_part,
                \<lparr>part_field = ''expire'', part_value = JNum 1762142400000,
                  part_filename = None\<rparr>]"
    using build_form_milliseconds [of 1762142400000 1762146000000] by simp
  show ?thesis
    using uploadFiles_invalid [OF mock_getServer build_form_seconds]
      uploadFiles_posted [OF mock_getServer b] uploadFiles_posted [OF mock_getServer c]
    by (simp add: mock_runtime_def mock_service_def upload_ok_def catch_log_def and_then_def)
qed

text \<open>
  The rounding of the division decides a close call: with the clock at 63 ms the
  expiration \<open>63 + 2 ^ -47\<close> ms, later than the clock, is rejected, because the two
  quotients by 1000 are the same double.
\<close>

lemma expire_close_call:
  "uploadFiles (mock_runtime mock_service 63) [] (JObj [(''expire'', JNum (63 + 1 / 2 ^ 47))]) w0 =
     (JUndefined,
      \<lparr>requests = [getServer_request (mock_runtime mock_service 63) JUndefined],
       console = [InvalidField ''expire'']\<rparr>)"
proof -
  have "append_expire (mock_runtime mock_service 63)
          (JObj [(''expire'', JNum (63 + 1 / 2 ^ 47))]) [category_part] =
        Inl (InvalidField ''expire'')"
  proof -
    obtain q where q: "js_div (Finite (real_of_int 63)) 1000 = q" by simp
    have ne: "(63 :: real) + 1 / 2 ^ 47 \<noteq> 0" by simp
    have le: "\<not> (10000000000 :: real) < 63 + 1 / 2 ^ 47" by simp
    have irr: "\<not> js_gt q q" by (cases q) simp_all
    show ?thesis
      unfolding append_expire_def mock_runtime_def
      using ne le irr
      by (simp add: and_then_def Let_def expire_close_quotients q
          del: js_div.simps of_int_numeral)
  qed
  then have "build_form (mock_runtime mock_service 63) []
               (default_arg (JObj [(''expire'', JNum (63 + 1 / 2 ^ 47))]) (JObj [])) =
             Inl (InvalidField ''expire'')"
    by (simp add: build_form_def default_arg_def and_then_def build_form_expire_only)
  from uploadFiles_invalid [OF mock_getServer this] show ?thesis by simp
qed

lemma fd_append_parts:
  "fd_append fd k v nm = Inr fd' \<Longrightarrow> pt \<in> set fd' \<Longrightarrow> pt \<in> set fd \<or> part_field pt = k"
  by (auto simp add: fd_append_def split: if_splits)

lemma fd_append_error: "fd_append fd k v nm = Inl e \<Longrightarrow> e = ArraysNotSupported"
  by (auto simp add: fd_append_def split: if_splits)

lemma file_parts_fields:
  "append_files fd files = Inr fd' \<Longrightarrow> pt \<in> set fd' \<Longrightarrow>
   pt \<in> set fd \<or> part_field pt = ''filesUploaded''"
proof (induction files arbitrary: fd)
  case Nil
  then show ?case by simp
next
  case (Cons f files)
  from Cons.prems(1) obtain fd1 where
    s1: "append_file fd f = Inr fd1" and s2: "append_files fd1 files = Inr fd'"
    by (auto simp add: and_then_def split: sum.splits)
  from Cons.IH [OF s2 Cons.prems(2)] have "pt \<in> set fd1 \<or> part_field pt = ''filesUploaded''" .
  moreover have "pt \<in> set fd \<or> part_field pt = ''filesUploaded''" if "pt \<in> set fd1"
    using s1 that by (auto simp add: append_file_def split: if_splits dest: fd_append_parts)
  ultimately show ?case by blast
qed

lemma append_files_error: "append_files fd files = Inl e \<Longrightarrow> e = ArraysNotSupported"
proof (induction files arbitrary: fd)
  case Nil
  then show ?case by simp
next
  case (Cons f files)
  then show ?case
    by (auto simp add: and_then_def append_file_def split: sum.splits if_splits
        dest: fd_append_error)
qed

lemma append_description_falsy:
  "get_prop options ''description'' = Inr d \<Longrightarrow> \<not> truthy d \<Longrightarrow>
   append_description rt options fd = Inr fd"
  by (simp add: append_description_def and_then_def)

lemma append_password_falsy:
  "get_prop options ''password'' = Inr pw \<Longrightarrow> \<not> truthy pw \<Longrightarrow>
   append_password rt options fd = Inr fd"
  by (simp add: append_password_def and_then_def)

lemma append_description_parts:
  "append_description rt options fd = Inr fd' \<Longrightarrow> pt \<in> set fd' \<Longrightarrow>
   pt \<in> set fd \<or> part_field pt = ''description''"
  by (auto simp add: append_description_def and_then_def split: sum.splits if_splits
      dest: fd_append_parts)

lemma append_password_parts:
  "append_password rt options fd = Inr fd' \<Longrightarrow> pt \<in> set fd' \<Longrightarrow>
   pt \<in> set fd \<or> part_field pt = ''password''"
  by (auto simp add: append_password_def and_then_def split: sum.splits if_splits
      dest: fd_append_parts)

lemma append_expire_parts:
  "append_expire rt options fd = Inr fd' \<Longrightarrow> pt \<in> set fd' \<Longrightarrow>
   pt \<in> set fd \<or> part_field pt = ''expire''"
  by (auto simp add: append_expire_def and_then_def Let_def split: sum.splits if_splits
      dest: fd_append_parts)

lemma append_description_error:
  "append_description rt options fd = Inl e \<Longrightarrow>
   e = TypeError \<or> e = InvalidField ''description'' \<or> e = ArraysNotSupported"
  by (auto simp add: append_description_def and_then_def split: sum.splits if_splits
      dest: get_prop_Inl fd_append_error)

lemma append_password_error:
  "append_password rt options fd = Inl e \<Longrightarrow>
   e = TypeError \<or> e = InvalidField ''password'' \<or> e = ArraysNotSupported"
  by (auto simp add: append_password_def and_then_def split: sum.splits if_splits
      dest: get_prop_Inl fd_append_error)

lemma append_expire_error:
  "append_expire rt options fd = Inl e \<Longrightarrow>
   e = TypeError \<or> e = InvalidField ''expire'' \<or> e = ArraysNotSupported"
  by (auto simp add: append_expire_def and_then_def Let_def split: sum.splits if_splits
      dest: get_prop_Inl fd_append_error)

lemma base_parts:
  "append_files [] files = Inr fd \<Longrightarrow> pt \<in> set (fd @ [category_part]) \<Longrightarrow>
   part_field pt = ''filesUploaded'' \<or> part_field pt = ''category''"
  using file_parts_fields [of "[]" files fd pt] by (auto simp add: category_part_def)

lemma build_form_error:
  "build_form rt files options = Inl e \<Longrightarrow>
   e = TypeError \<or> e = ArraysNotSupported \<or>
   e = InvalidField ''description'' \<or> e = InvalidField ''password'' \<or>
   e = InvalidField ''expire''"
  by (auto simp add: build_form_def and_then_def split: sum.splits
      dest: append_files_error append_description_error append_password_error
        append_expire_error)

lemma build_form_falsy:
  assumes "k = ''description'' \<or> k = ''password''"
      and "get_prop options k = Inr v" and "\<not> truthy v"
  shows "build_form rt files options \<noteq> Inl (InvalidField k)"
    and "build_form rt files options = Inr fd \<Longrightarrow> pt \<in> set fd \<Longrightarrow> part_field pt \<noteq> k"
proof -
  show "build_form rt files options \<noteq> Inl (InvalidField k)"
  proof
    assume bad: "build_form rt files options = Inl (InvalidField k)"
    show False
    proof (cases "append_files [] files")
      case (Inl e)
      then have "e = InvalidField k" using bad by (simp add: build_form_def and_then_def)
      then show False using append_files_error [OF Inl] by simp
    next
      case fd0: (Inr fd0)
      let ?base = "fd0 @ [category_part]"
      have bf: "build_form rt files options =
          and_then (append_description rt options ?base)
            (\<lambda>fd. and_then (append_password rt options fd) (append_expire rt options))"
        using fd0 by (simp add: build_form_def and_then_def)
      show False
      proof (cases "append_description rt options ?base")
        case (Inl e)
        then have "e = InvalidField k" using bad unfolding bf by (simp add: and_then_def)
        moreover have "k \<noteq> ''description''"
          using Inl append_description_falsy [of options v rt ?base] assms by auto
        ultimately show False using append_description_error [OF Inl] by simp
      next
        case fd1: (Inr fd1)
        show False
        proof (cases "append_password rt options fd1")
          case (Inl e)
          then have "e = InvalidField k" using bad fd1 unfolding bf by (simp add: and_then_def)
          moreover have "k \<noteq> ''password''"
            using Inl append_password_falsy [of options v rt fd1] assms by auto
          ultimately show False using append_password_error [OF Inl] by simp
        next
          case (Inr fd2)
          then have "append_expire rt options fd2 = Inl (InvalidField k)"
            using bad fd1 unfolding bf by (simp add: and_then_def)
          from append_expire_error [OF this] show False using assms(1) by auto
        qed
      qed
    qed
  qed
  show "part_field pt \<noteq> k" if "build_form rt files options = Inr fd" "pt \<in> set fd"
  proof -
    from that(1) obtain fd0 fd1 fd2 where
      s0: "append_files [] files = Inr fd0" and
      s1: "append_description rt options (fd0 @ [category_part]) = Inr fd1" and
      s2: "append_password rt options fd1 = Inr fd2" and
      s3: "append_expire rt options fd2 = Inr fd"
      by (auto simp add: build_form_def and_then_def split: sum.splits)
    let ?base = "fd0 @ [category_part]"
    from append_expire_parts [OF s3 that(2)]
    consider "part_field pt = ''expire''" | "pt \<in> set fd2" by blast
    then show ?thesis
    proof cases
      case 1
      then show ?thesis using assms(1) by auto
    next
      case 2
      show ?thesis
      proof (cases "k = ''description''")
        case True
        then have "fd1 = ?base"
          using s1 append_description_falsy [of options v rt ?base] assms by simp
        then show ?thesis
          using append_password_parts [OF s2 2] base_parts [OF s0, of pt] True by auto
      next
        case False
        then have k: "k = ''password''" using assms(1) by simp
        then have "fd2 = fd1"
          using s2 append_password_falsy [of options v rt fd1] assms by simp
        then show ?thesis
          using append_description_parts [OF s1, of pt] 2 base_parts [OF s0, of pt] k by auto
      qed
    qed
  qed
qed

text \<open>
  An array for the description passes the length test and is refused by the form: the call
  writes the error of the form and sends no upload request.
\<close>

lemma description_array_refused:
  "uploadFiles (mock_runtime mock_service 0) []
     (JObj [(''description'', JArray [JStr ''a''])]) w0 =
     (JUndefined,
      \<lparr>requests = [getServer_request (mock_runtime mock_service 0) JUndefined],
       console = [ArraysNotSupported]\<rparr>)"
proof -
  have "build_form (mock_runtime mock_service 0) []
          (default_arg (JObj [(''description'', JArray [JStr ''a''])]) (JObj [])) =
        Inl ArraysNotSupported"
    by (simp add: build_form_def default_arg_def and_then_def append_description_def
        fd_append_def key_index_def index_key.simps)
  from uploadFiles_invalid [OF mock_getServer this] show ?thesis by simp
qed

text \<open>
  C10.  When the description or the password of the options is falsy (the empty string,
  \<^verbatim>\<open>undefined\<close>, \<^verbatim>\<open>null\<close>, \<^verbatim>\<open>false\<close>, zero, \<open>NaN\<close>), the field is skipped: the call
  writes no invalid-option error for it, and no request it sends carries a part of that
  name.
\<close>

theorem falsy_option_skipped:
  assumes "k = ''description'' \<or> k = ''password''"
      and "get_prop (default_arg options (JObj [])) k = Inr v" and "\<not> truthy v"
  shows "InvalidField k \<notin>
           set (drop (length (console w)) (console (snd (uploadFiles rt files options w)))) \<and>
         (\<forall>r \<in> set (drop (length (requests w)) (requests (snd (uploadFiles rt files options w)))).
            \<forall>fd. data r = Some fd \<longrightarrow> k \<notin> part_field ` set fd)"
proof
  obtain l where l: "console (snd (uploadFiles rt files options w)) = console w @ l"
    "\<forall>e \<in> set l. \<forall>k. e = InvalidField k \<longrightarrow>
       build_form rt files (default_arg options (JObj [])) = Inl (InvalidField k)"
    using uploadFiles_console_new [of rt files options w] by blast
  show "InvalidField k \<notin>
          set (drop (length (console w)) (console (snd (uploadFiles rt files options w))))"
    using l build_form_falsy(1) [OF assms, of rt files] by auto
  show "\<forall>r \<in> set (drop (length (requests w)) (requests (snd (uploadFiles rt files options w)))).
          \<forall>fd. data r = Some fd \<longrightarrow> k \<notin> part_field ` set fd"
  proof (cases "build_form rt files (default_arg options (JObj []))")
    case (Inl e)
    then show ?thesis
      by (simp add: uploadFiles_requests getServer_request_def)
  next
    case (Inr fd)
    then show ?thesis
      using build_form_falsy(2) [OF assms Inr]
      by (auto simp add: uploadFiles_requests getServer_request_def upload_request_def)
  qed
qed

theorem falsy_option_skipped_witness:
  "get_prop (default_arg (JObj [(''description'', JStr '''')]) (JObj [])) ''description'' =
     Inr (JStr '''') \<and>
   \<not> truthy (JStr '''') \<and>
   InvalidField ''description'' \<notin>
     set (drop (length (console w0))
            (console (snd (uploadFiles (mock_runtime mock_service 0) []
                            (JObj [(''description'', JStr '''')]) w0))))"
  using falsy_option_skipped [of "''description''" "JObj [(''description'', JStr '''')]"
      "JStr ''''" w0 "mock_runtime mock_service 0" "[]"]
  by (simp add: default_arg_def)

text \<open>
  C3, as amended.  For the empty list of files \<open>uploadFiles\<close> checks nothing about the
  list and raises no invalid-file error: it first sends the broker request and then, when
  the options validate, the upload request, whose form is the one built from no file;
  with absent options that form is the category part alone.
\<close>

theorem uploadFiles_empty_list:
  "requests (snd (uploadFiles rt [] options w)) =
     requests w @ getServer_request rt JUndefined #
       (case build_form rt [] (default_arg options (JObj [])) of
          Inl e \<Rightarrow> []
        | Inr fd \<Rightarrow> [upload_request rt (fst (getServer rt JUndefined w)) fd]) \<and>
   build_form rt [] (default_arg options (JObj [])) \<noteq> Inl FilenameBlank \<and>
   build_form rt [] (default_arg options (JObj [])) \<noteq> Inl InvalidFileType \<and>
   build_form rt [] (default_arg JUndefined (JObj [])) = Inr [category_part]"
proof -
  have "e = TypeError \<or> e = ArraysNotSupported \<or> (\<exists>k. e = InvalidField k)"
    if "build_form rt [] opts = Inl e" for opts e
    using build_form_error [OF that] by auto
  moreover have "build_form rt [] (default_arg JUndefined (JObj [])) = Inr [category_part]"
    by (simp add: build_form_def default_arg_def and_then_def append_description_def
        append_password_def append_expire_def)
  ultimately show ?thesis
    using uploadFiles_requests [of rt "[]" options w] by auto
qed

theorem uploadFiles_empty_list_witness:
  "requests (snd (uploadFiles (mock_runtime mock_service 0) [] JUndefined w0)) =
     [getServer_request (mock_runtime mock_service 0) JUndefined,
      upload_request (mock_runtime mock_service 0) (JStr ''srv-file1'') [category_part]]"
  using uploadFiles_empty_list [of "mock_runtime mock_service 0" JUndefined w0]
    mock_getServer [of 0]
  by (simp add: w0_def)

text \<open>
  C3, as stated, fails: against a healthy service the upload of the empty list sends the
  broker request and the upload request and returns the payload of the service; nothing
  is written to the console.
\<close>

theorem uploadFiles_empty_list_counterexample:
  "uploadFiles (mock_runtime mock_service 0) [] JUndefined w0 =
     (JObj [(''code'', JStr ''abc123''), (''removalCode'', JStr ''xyz'')],
      \<lparr>requests =
         [getServer_request (mock_runtime mock_service 0) JUndefined,
          upload_request (mock_runtime mock_service 0) (JStr ''srv-file1'') [category_part]],
       console = []\<rparr>)"
proof -
  have "build_form (mock_runtime mock_service 0) [] (default_arg JUndefined (JObj [])) =
          Inr [category_part]"
    by (simp add: build_form_def default_arg_def and_then_def append_description_def
        append_password_def append_expire_def)
  from uploadFiles_posted [OF mock_getServer this] show ?thesis
    by (simp add: mock_runtime_def mock_service_def upload_ok_def catch_log_def and_then_def)
qed

text \<open>
  C7.  \<open>uploadFile\<close> raises the invalid-file error \<open>FilenameBlank\<close> when given a
  buffer with a falsy name, absent or empty, and the invalid-file error
  \<open>InvalidFileType\<close> when the content is neither a buffer nor a readable stream; both
  reach the caller.  Given a buffer and a non-empty name it is the call of \<open>uploadFiles\<close>
  on that one named file, and when the service answers the upload with status \<open>ok\<close> it
  returns exactly the \<open>data\<close> of that answer.
\<close>

theorem uploadFile_cases:
  "(\<not> truthy arg2 \<longrightarrow> uploadFile rt (JBuffer b) arg2 arg3 w = Inl FilenameBlank) \<and>
   (\<not> instanceof_Buffer arg1 \<and> \<not> instanceof_Readable arg1 \<longrightarrow>
      uploadFile rt arg1 arg2 arg3 w = Inl InvalidFileType) \<and>
   (name \<noteq> '''' \<longrightarrow>
      uploadFile rt (JBuffer b) (JStr name) arg3 w =
        Inr (uploadFiles rt [\<lparr>file_data = JBuffer b, fn = JStr name\<rparr>] arg3 w)) \<and>
   (\<forall>server w1 fd d payload.
      name \<noteq> '''' \<and> getServer rt JUndefined w = (server, w1) \<and>
      build_form rt [\<lparr>file_data = JBuffer b, fn = JStr name\<rparr>] (default_arg arg3 (JObj [])) =
        Inr fd \<and>
      http rt (length (requests w1)) (upload_request rt server fd) = Resolve d \<and>
      get_prop d ''status'' = Inr (JStr ''ok'') \<and> get_prop d ''data'' = Inr payload \<longrightarrow>
      uploadFile rt (JBuffer b) (JStr name) arg3 w =
        Inr (payload, w1\<lparr>requests := requests w1 @ [upload_request rt server fd]\<rparr>))"
proof (intro conjI allI impI)
  show "uploadFile rt (JBuffer b) arg2 arg3 w = Inl FilenameBlank" if "\<not> truthy arg2"
    using that by (simp add: uploadFile_def)
  show "uploadFile rt arg1 arg2 arg3 w = Inl InvalidFileType"
    if "\<not> instanceof_Buffer arg1 \<and> \<not> instanceof_Readable arg1"
    using that by (simp add: uploadFile_def)
  show "uploadFile rt (JBuffer b) (JStr name) arg3 w =
        Inr (uploadFiles rt [\<lparr>file_data = JBuffer b, fn = JStr name\<rparr>] arg3 w)"
    if "name \<noteq> ''''"
    using that by (simp add: uploadFile_def)
next
  fix server w1 fd d payload
  assume a: "name \<noteq> '''' \<and> getServer rt JUndefined w = (server, w1) \<and>
      build_form rt [\<lparr>file_data = JBuffer b, fn = JStr name\<rparr>] (default_arg arg3 (JObj [])) =
        Inr fd \<and>
      http rt (length (requests w1)) (upload_request rt server fd) = Resolve d \<and>
      get_prop d ''status'' = Inr (JStr ''ok'') \<and> get_prop d ''data'' = Inr payload"
  then have a1: "getServer rt JUndefined w = (server, w1)"
    and a2: "build_form rt [\<lparr>file_data = JBuffer b, fn = JStr name\<rparr>]
               (default_arg arg3 (JObj [])) = Inr fd"
    by simp_all
  show "uploadFile rt (JBuffer b) (JStr name) arg3 w =
        Inr (payload, w1\<lparr>requests := requests w1 @ [upload_request rt server fd]\<rparr>)"
    using a by (simp add: uploadFile_def uploadFiles_posted [OF a1 a2] catch_log_def and_then_def)
qed

theorem uploadFile_cases_witness:
  "uploadFile (mock_runtime mock_service 0) (JBuffer [104, 105]) JUndefined JUndefined w0 =
     Inl FilenameBlank \<and>
   uploadFile (mock_runtime mock_service 0) (JStr ''hi'') JUndefined JUndefined w0 =
     Inl InvalidFileType \<and>
   uploadFile (mock_runtime mock_service 0) (JBuffer [104, 105]) (JStr ''a.txt'') JUndefined w0 =
     Inr (JObj [(''code'', JStr ''abc123''), (''removalCode'', JStr ''xyz'')],
          \<lparr>requests =
             [getServer_request (mock_runtime mock_service 0) JUndefined,
              upload_request (mock_runtime mock_service 0) (JStr ''srv-file1'')
                [\<lparr>part_field = ''filesUploaded'', part_value = JBuffer [104, 105],
                  part_filename = Some (JStr ''a.txt'')\<rparr>,
                 category_part]],
           console = []\<rparr>)"
proof -
  let ?rt = "mock_runtime mock_service 0"
  let ?fd = "[\<lparr>part_field = ''filesUploaded'', part_value = JBuffer [104, 105],
               part_filename = Some (JStr ''a.txt'')\<rparr>, category_part]"
  have form: "build_form ?rt [\<lparr>file_data = JBuffer [104, 105], fn = JStr ''a.txt''\<rparr>]
                (default_arg JUndefined (JObj [])) = Inr ?fd"
    by (simp add: build_form_def default_arg_def and_then_def append_description_def
        append_password_def append_expire_def append_file_def fd_append_def)
  have answer: "http ?rt (length (requests
                   \<lparr>requests = [getServer_request ?rt JUndefined], console = []\<rparr>))
                  (upload_request ?rt (JStr ''srv-file1'') ?fd) = Resolve upload_ok"
    by (simp add: mock_runtime_def mock_service_def)
  note cases = uploadFile_cases [of JUndefined ?rt "[104, 105]" JUndefined w0 "JStr ''hi''" "''a.txt''"]
  have "uploadFile ?rt (JBuffer [104, 105]) JUndefined JUndefined w0 = Inl FilenameBlank"
    using cases [THEN conjunct1] by simp
  moreover have "uploadFile ?rt (JStr ''hi'') JUndefined JUndefined w0 = Inl InvalidFileType"
    using cases [THEN conjunct2, THEN conjunct1] by simp
  moreover have "uploadFile ?rt (JBuffer [104, 105]) (JStr ''a.txt'') JUndefined w0 =
     Inr (JObj [(''code'', JStr ''abc123''), (''removalCode'', JStr ''xyz'')],
          \<lparr>requests = [getServer_request ?rt JUndefined,
                        upload_request ?rt (JStr ''srv-file1'') ?fd],
           console = []\<rparr>)"
    using cases [THEN conjunct2, THEN conjunct2, THEN conjunct2]
      mock_getServer [of 0] form answer
    by (simp add: upload_ok_def)
  ultimately show ?thesis by simp
qed

section \<open>Info fetch and removal\<close>

lemma getUploadInfo_sent:
  assumes "getServer rt code w = (server, w1)"
      and "passphrase_query (default_arg p (JStr '''')) = Inr q"
  shows "getUploadInfo rt code p w =
           catch_log
             (case http rt (length (requests w1)) (getUploadInfo_request rt server code q) of
                Resolve d \<Rightarrow>
                  and_then (get_prop d ''status'') (\<lambda>st.
                    if st \<noteq> JStr ''ok'' then Inl (FetchInfoFailed d) else get_prop d ''data'')
              | Reject e \<Rightarrow> Inl (RequestFailed e),
              w1\<lparr>requests := requests w1 @ [getUploadInfo_request rt server code q]\<rparr>)"
  using assms by (simp add: getUploadInfo_def axios_def and_then_def split: outcome.splits)

lemma removeUpload_sent:
  assumes "getServer rt code w = (server, w1)"
  shows "removeUpload rt code removalCode w =
           catch_log
             (case http rt (length (requests w1))
                     (removeUpload_request rt server code removalCode) of
                Resolve d \<Rightarrow>
                  and_then (get_prop d ''status'') (\<lambda>st.
                    if st \<noteq> JStr ''ok'' then Inl (RemoveFailed d) else get_prop d ''data'')
              | Reject e \<Rightarrow> Inl (RequestFailed e),
              w1\<lparr>requests := requests w1 @ [removeUpload_request rt server code removalCode]\<rparr>)"
  using assms by (simp add: removeUpload_def axios_def and_then_def split: outcome.splits)






section \<open>Download\<close>

subsection \<open>Enumerating the manifest\<close>

lemma digit_value: "n < 10 \<Longrightarrow> (of_char (''0123456789'' ! n) :: nat) - 48 = n"
proof -
  assume "n < 10"
  then have "n \<in> set [0..<10]" by simp
  then show ?thesis by (simp add: upt_rec) auto
qed

lemma key_number_index_key: "key_number (index_key n) = n"
proof (induction n rule: index_key.induct)
  case (1 n)
  show ?case
  proof (cases "n < 10")
    case True
    then show ?thesis
      by (subst index_key.simps) (simp add: key_number_def digit_value)
  next
    case False
    then have "key_number (index_key (n div 10)) = n div 10" using 1 by simp
    moreover have "n mod 10 < 10" by simp
    ultimately show ?thesis using False
      by (subst index_key.simps) (simp add: key_number_def digit_value)
  qed
qed

lemma index_key_inj: "index_key i = index_key j \<Longrightarrow> i = j"
  by (metis key_number_index_key)

lemma key_index_index_key: "i < n \<Longrightarrow> key_index n (index_key i) = Some i"
  unfolding key_index_def find_Some_iff
  by (rule exI [of _ i]) (auto dest: index_key_inj)

lemma map_err_all:
  "(\<And>x. x \<in> set xs \<Longrightarrow> f x = Inr (g x)) \<Longrightarrow> map_err f xs = Inr (map g xs)"
  by (induction xs) auto

lemma map_index_keys:
  "(\<And>i. i < n \<Longrightarrow> f (index_key i) = Inr (xs ! i)) \<Longrightarrow> length xs = n \<Longrightarrow>
   map_err f (index_keys n) = Inr xs"
proof -
  assume f: "\<And>i. i < n \<Longrightarrow> f (index_key i) = Inr (xs ! i)" and len: "length xs = n"
  have "map_err f (map index_key [0..<n]) = Inr (map (\<lambda>k. xs ! key_number k) (map index_key [0..<n]))"
    by (rule map_err_all) (auto simp add: f key_number_index_key)
  also have "map (\<lambda>k. xs ! key_number k) (map index_key [0..<n]) = map ((!) xs) [0..<n]"
    by (simp add: key_number_index_key)
  also have "\<dots> = xs" unfolding len [symmetric] by (rule map_nth)
  finally show ?thesis by (simp add: index_keys_def)
qed

lemma map_err_fst:
  assumes "distinct (map fst kvs)"
  shows "map_err (get_prop (JObj kvs)) (map fst kvs) = Inr (map snd kvs)"
proof -
  have look: "map_of kvs (fst kv) = Some (snd kv)" if "kv \<in> set kvs" for kv
    using that by (intro map_of_is_SomeI [OF assms]) simp
  have "map_err (get_prop (JObj kvs)) (map fst kvs) =
          Inr (map (\<lambda>k. the (map_of kvs k)) (map fst kvs))"
  proof (rule map_err_all)
    fix k assume "k \<in> set (map fst kvs)"
    then obtain kv where "kv \<in> set kvs" "k = fst kv" by auto
    then show "get_prop (JObj kvs) k = Inr (the (map_of kvs k))"
      using look [of kv] by simp
  qed
  also have "map (\<lambda>k. the (map_of kvs k)) (map fst kvs) = map snd kvs"
    using look by simp
  finally show ?thesis .
qed

lemma own_values_enumerated:
  assumes "well_formed files"
  shows "and_then (object_keys files) (\<lambda>ks. map_err (get_prop files) ks) = Inr (own_values files)"
proof (cases files)
  case (JObj kvs)
  then have "distinct (map fst kvs)" using assms by simp
  then have e: "map_err (get_prop (JObj kvs)) (map fst kvs) = Inr (map snd kvs)"
    by (rule map_err_fst)
  show ?thesis unfolding JObj by (simp add: and_then_def e)
next
  case (JArray xs)
  have e: "map_err (get_prop (JArray xs)) (index_keys (length xs)) = Inr xs"
    by (rule map_index_keys) (simp_all add: key_index_index_key)
  show ?thesis unfolding JArray by (simp add: and_then_def e)
next
  case (JStr s)
  have e: "map_err (get_prop (JStr s)) (index_keys (length s)) = Inr (map (\<lambda>c. JStr [c]) s)"
    by (rule map_index_keys) (simp_all add: key_index_index_key)
  show ?thesis unfolding JStr by (simp add: and_then_def e)
next
  case (JBuffer b)
  have e: "map_err (get_prop (JBuffer b)) (index_keys (length b)) =
          Inr (map (\<lambda>x. JNum (real (unat x))) b)"
    by (rule map_index_keys) (simp_all add: key_index_index_key)
  show ?thesis unfolding JBuffer by (simp add: and_then_def e)
qed (use assms in \<open>simp_all add: and_then_def\<close>)

lemma manifest_entries_ok:
  "get_prop info ''files'' = Inr files \<Longrightarrow> well_formed files \<Longrightarrow>
   manifest_entries info = Inr (own_values files)"
  using own_values_enumerated [of files] by (simp add: manifest_entries_def and_then_def)

subsection \<open>Waiting for all the answers\<close>

lemma all_filled_Some: "all_filled slots = Some vs \<longleftrightarrow> slots = map Some vs"
proof (induction slots arbitrary: vs rule: all_filled.induct)
  case 1
  then show ?case by auto
next
  case (2 slots)
  then show ?case by auto
next
  case (3 v slots)
  then show ?case by (cases vs) auto
qed

lemma all_filled_None: "None \<in> set slots \<Longrightarrow> all_filled slots = None"
  by (induction slots rule: all_filled.induct) auto

lemma filled_slots:
  assumes len: "length slots = length outs"
      and agree: "\<forall>i < length outs. \<forall>d. slots ! i = Some d \<longrightarrow> outs ! i = Resolve d"
      and full: "slots = map Some vs"
  shows "outs = map Resolve vs"
proof (rule nth_equalityI)
  show "length outs = length (map Resolve vs)" using len full by simp
  fix i assume "i < length outs"
  then show "outs ! i = map Resolve vs ! i" using agree len full by simp
qed

lemma agree_update:
  assumes "length slots = length outs"
      and "\<forall>k < length outs. \<forall>d. slots ! k = Some d \<longrightarrow> outs ! k = Resolve d"
      and "i < length outs" and "outs ! i = Resolve d"
  shows "\<forall>k < length outs. \<forall>d'. slots[i := Some d] ! k = Some d' \<longrightarrow> outs ! k = Resolve d'"
proof (intro allI impI)
  fix k d' assume k: "k < length outs" and s: "slots[i := Some d] ! k = Some d'"
  show "outs ! k = Resolve d'"
  proof (cases "k = i")
    case True
    then show ?thesis using s assms(1,3,4) by simp
  next
    case False
    then have "slots ! k = Some d'" using s by simp
    then show ?thesis using assms(2) k by simp
  qed
qed

lemma cover_update:
  assumes "length slots = length outs"
      and "\<forall>k < length outs. slots ! k = None \<longrightarrow> k \<in> set (i # sched)"
  shows "\<forall>k < length outs. slots[i := Some d] ! k = None \<longrightarrow> k \<in> set sched"
proof (intro allI impI)
  fix k assume k: "k < length outs" and s: "slots[i := Some d] ! k = None"
  have "k \<noteq> i" using s k assms(1) by auto
  then have "slots ! k = None" using s by simp
  then show "k \<in> set sched" using assms(2) k \<open>k \<noteq> i\<close> by auto
qed

lemma cover_extend:
  assumes "\<forall>k < length outs. slots[i := Some d] ! k = None \<longrightarrow> k \<in> set sched"
  shows "\<forall>k < length outs. slots ! k = None \<longrightarrow> k \<in> set (i # sched)"
proof (intro allI impI)
  fix k assume k: "k < length outs" and s: "slots ! k = None"
  show "k \<in> set (i # sched)"
  proof (cases "k = i")
    case True
    then show ?thesis by simp
  next
    case False
    then have "slots[i := Some d] ! k = None" using s by simp
    then show ?thesis using assms k by simp
  qed
qed

lemma await_all_fulfilled:
  assumes "length slots = length outs"
      and "\<forall>i < length outs. \<forall>d. slots ! i = Some d \<longrightarrow> outs ! i = Resolve d"
      and "outs = map Resolve ds"
      and "\<forall>i < length outs. slots ! i = None \<longrightarrow> i \<in> set sched"
  shows "await_all sched outs slots = Fulfilled ds"
  using assms
proof (induction sched arbitrary: slots)
  case Nil
  then have "slots = map Some ds"
    by (intro nth_equalityI) auto
  then show ?case by (simp add: all_filled_Some [THEN iffD2])
next
  case (Cons i sched)
  show ?case
  proof (cases "all_filled slots")
    case (Some vs)
    then have "slots = map Some vs" by (simp add: all_filled_Some)
    from filled_slots [OF Cons.prems(1,2) this] Cons.prems(3)
    have "map Resolve vs = map Resolve ds" by simp
    then have "vs = ds" by (rule map_injective) (simp add: inj_def)
    then show ?thesis using Some by simp
  next
    case None
    show ?thesis
    proof (cases "i < length outs")
      case True
      then have res: "outs ! i = Resolve (ds ! i)" using Cons.prems(3) by simp
      have "await_all sched outs (slots[i := Some (ds ! i)]) = Fulfilled ds"
      proof (rule Cons.IH)
        show "length (slots[i := Some (ds ! i)]) = length outs" using Cons.prems(1) by simp
        show "\<forall>j < length outs. \<forall>d. slots[i := Some (ds ! i)] ! j = Some d \<longrightarrow> outs ! j = Resolve d"
          by (rule agree_update [OF Cons.prems(1,2) True res])
        show "outs = map Resolve ds" by (rule Cons.prems(3))
        show "\<forall>j < length outs. slots[i := Some (ds ! i)] ! j = None \<longrightarrow> j \<in> set sched"
          by (rule cover_update [OF Cons.prems(1,4)])
      qed
      then show ?thesis using None True res by simp
    next
      case False
      have "await_all sched outs slots = Fulfilled ds"
      proof (rule Cons.IH [OF Cons.prems(1,2,3)])
        show "\<forall>j < length outs. slots ! j = None \<longrightarrow> j \<in> set sched"
          using Cons.prems(4) False by auto
      qed
      then show ?thesis using None False by simp
    qed
  qed
qed

lemma await_all_rejected:
  assumes "length slots = length outs"
      and "\<forall>i < length outs. \<forall>d. slots ! i = Some d \<longrightarrow> outs ! i = Resolve d"
      and "j < length outs" and "outs ! j = Reject r"
      and "\<forall>i < length outs. slots ! i = None \<longrightarrow> i \<in> set sched"
  shows "\<exists>e. await_all sched outs slots = Rejected e \<and> Reject e \<in> set outs"
  using assms
proof (induction sched arbitrary: slots)
  case Nil
  then have "slots ! j = None" by (cases "slots ! j") auto
  then show ?case using Nil by auto
next
  case (Cons i sched)
  have "slots ! j = None" using Cons.prems(2,3,4) by (cases "slots ! j") auto
  then have "None \<in> set slots" using Cons.prems(1,3) by (metis nth_mem)
  then have none: "all_filled slots = None" by (rule all_filled_None)
  show ?case
  proof (cases "i < length outs")
    case True
    show ?thesis
    proof (cases "outs ! i")
      case (Reject e)
      then have "Reject e \<in> set outs" using True by (metis nth_mem)
      then show ?thesis using none True Reject by simp
    next
      case (Resolve d)
      have "\<exists>e. await_all sched outs (slots[i := Some d]) = Rejected e \<and> Reject e \<in> set outs"
      proof (rule Cons.IH [OF _ _ Cons.prems(3,4)])
        show "length (slots[i := Some d]) = length outs" using Cons.prems(1) by simp
        show "\<forall>k < length outs. \<forall>d'. slots[i := Some d] ! k = Some d' \<longrightarrow> outs ! k = Resolve d'"
          by (rule agree_update [OF Cons.prems(1,2) True Resolve])
        show "\<forall>k < length outs. slots[i := Some d] ! k = None \<longrightarrow> k \<in> set sched"
          by (rule cover_update [OF Cons.prems(1,5)])
      qed
      then show ?thesis using none True Resolve by simp
    qed
  next
    case False
    have "\<exists>e. await_all sched outs slots = Rejected e \<and> Reject e \<in> set outs"
    proof (rule Cons.IH [OF Cons.prems(1,2,3,4)])
      show "\<forall>k < length outs. slots ! k = None \<longrightarrow> k \<in> set sched"
        using Cons.prems(5) False by auto
    qed
    then show ?thesis using none False by simp
  qed
qed

lemma await_all_complete:
  assumes "length slots = length outs"
      and "\<forall>i < length outs. \<forall>d. slots ! i = Some d \<longrightarrow> outs ! i = Resolve d"
      and "await_all sched outs slots = Fulfilled vs"
  shows "outs = map Resolve vs \<and> (\<forall>i < length outs. slots ! i = None \<longrightarrow> i \<in> set sched)"
  using assms
proof (induction sched arbitrary: slots)
  case Nil
  then have "slots = map Some vs"
    by (simp add: all_filled_Some [symmetric] split: option.splits)
  with filled_slots [OF Nil.prems(1,2) this] Nil.prems(1) show ?case by auto
next
  case (Cons i sched)
  show ?case
  proof (cases "all_filled slots")
    case (Some vs')
    then have "vs' = vs" using Cons.prems(3) by simp
    then have "slots = map Some vs" using Some by (simp add: all_filled_Some)
    with filled_slots [OF Cons.prems(1,2) this] Cons.prems(1) show ?thesis by auto
  next
    case None
    show ?thesis
    proof (cases "i < length outs")
      case True
      then obtain d where d: "outs ! i = Resolve d"
        and rest: "await_all sched outs (slots[i := Some d]) = Fulfilled vs"
        using Cons.prems(3) None by (cases "outs ! i") auto
      have "outs = map Resolve vs \<and>
            (\<forall>k < length outs. slots[i := Some d] ! k = None \<longrightarrow> k \<in> set sched)"
      proof (rule Cons.IH [OF _ _ rest])
        show "length (slots[i := Some d]) = length outs" using Cons.prems(1) by simp
        show "\<forall>k < length outs. \<forall>d'. slots[i := Some d] ! k = Some d' \<longrightarrow> outs ! k = Resolve d'"
          by (rule agree_update [OF Cons.prems(1,2) True d])
      qed
      then show ?thesis using cover_extend [of outs slots i d sched] by blast
    next
      case False
      then have "await_all sched outs slots = Fulfilled vs"
        using Cons.prems(3) None by simp
      from Cons.IH [OF Cons.prems(1,2) this] show ?thesis by auto
    qed
  qed
qed

lemma promise_all_fulfilled:
  "outs = map Resolve ds \<Longrightarrow> {0..<length outs} \<subseteq> set sched \<Longrightarrow>
   promise_all sched outs = Fulfilled ds"
  unfolding promise_all_def by (rule await_all_fulfilled) auto

lemma promise_all_rejected:
  "j < length outs \<Longrightarrow> outs ! j = Reject r \<Longrightarrow> {0..<length outs} \<subseteq> set sched \<Longrightarrow>
   \<exists>e. promise_all sched outs = Rejected e \<and> Reject e \<in> set outs"
  unfolding promise_all_def by (rule await_all_rejected) auto

lemma promise_all_complete:
  "promise_all sched outs = Fulfilled vs \<Longrightarrow>
   outs = map Resolve vs \<and> {0..<length outs} \<subseteq> set sched"
  unfolding promise_all_def using await_all_complete [of "replicate (length outs) None" outs sched vs]
  by auto

subsection \<open>The whole download\<close>

lemma get_prop_link:
  "f \<noteq> JUndefined \<Longrightarrow> f \<noteq> JNull \<Longrightarrow> get_prop f ''link'' = Inr (link_of f)"
  by (cases f) (simp_all add: link_of_def)

lemma send_all_ok:
  assumes "\<forall>f \<in> set fs. f \<noteq> JUndefined \<and> f \<noteq> JNull"
  shows "send_all rt rtype fs w =
           (Inr (map (\<lambda>i. http rt (length (requests w) + i)
                              (download_request (link_of (fs ! i)) rtype)) [0..<length fs]),
            w\<lparr>requests := requests w @ map (\<lambda>f. download_request (link_of f) rtype) fs\<rparr>)"
  using assms
proof (induction fs arbitrary: w)
  case Nil
  then show ?case by simp
next
  case (Cons f fs)
  have link: "get_prop f ''link'' = Inr (link_of f)"
    using Cons.prems by (intro get_prop_link) auto
  have rest: "send_all rt rtype fs (w\<lparr>requests := requests w @ [download_request (link_of f) rtype]\<rparr>) =
      (Inr (map (\<lambda>i. http rt (Suc (length (requests w)) + i)
                         (download_request (link_of (fs ! i)) rtype)) [0..<length fs]),
       w\<lparr>requests := requests w @ download_request (link_of f) rtype #
                        map (\<lambda>f. download_request (link_of f) rtype) fs\<rparr>)"
    using Cons.prems by (subst Cons.IH) auto
  show ?case
    by (simp add: link rest map_upt_Suc del: upt_Suc)
qed

lemma downloadFiles_sent:
  assumes "getUploadInfo rt code (default_arg p (JStr '''')) w = (info, w1)"
      and "get_prop info ''files'' = Inr files" and "well_formed files"
      and "\<forall>f \<in> set (own_values files). f \<noteq> JUndefined \<and> f \<noteq> JNull"
      and "rtype = default_arg respType (JStr ''arraybuffer'')"
      and "outs = map (\<lambda>i. http rt (length (requests w1) + i)
                              (download_request (link_of (own_values files ! i)) rtype))
                   [0..<length (own_values files)]"
      and "w2 = w1\<lparr>requests := requests w1 @
                       map (\<lambda>f. download_request (link_of f) rtype) (own_values files)\<rparr>"
  shows "downloadFiles rt sched code p respType w =
           (case promise_all sched outs of
              Pending \<Rightarrow> None
            | Rejected e \<Rightarrow> Some (JUndefined, w2\<lparr>console := console w2 @ [RequestFailed e]\<rparr>)
            | Fulfilled ds \<Rightarrow> Some (JArray ds, w2))"
  using assms(1) manifest_entries_ok [OF assms(2,3)] send_all_ok [OF assms(4), of rt rtype w1]
    assms(5,6,7)
  by (simp add: downloadFiles_def catch_log_def split: settled.splits)

lemma mock_info:
  "getUploadInfo (mock_runtime download_service 0) (JStr ''abc123'')
     (default_arg JUndefined (JStr '''')) w0 =
     (JObj [(''code'', JStr ''abc123''), (''files'', manifest_ab)],
      \<lparr>requests =
         [getServer_request (mock_runtime download_service 0) (JStr ''abc123''),
          getUploadInfo_request (mock_runtime download_service 0) (JStr ''srv-file1'')
            (JStr ''abc123'') ''''],
       console = []\<rparr>)"
  by (simp add: getUploadInfo_def getServer_def axios_def catch_log_def and_then_def
      mock_runtime_def download_service_def broker_ok_def info_ab_def w0_def
      default_arg_def passphrase_query_def getServer_request_def)

lemma mock_info_failing:
  "getUploadInfo (mock_runtime failing_service 0) (JStr ''abc123'')
     (default_arg JUndefined (JStr '''')) w0 =
     (JObj [(''code'', JStr ''abc123''), (''files'', manifest_ab)],
      \<lparr>requests =
         [getServer_request (mock_runtime failing_service 0) (JStr ''abc123''),
          getUploadInfo_request (mock_runtime failing_service 0) (JStr ''srv-file1'')
            (JStr ''abc123'') ''''],
       console = []\<rparr>)"
  by (simp add: getUploadInfo_def getServer_def axios_def catch_log_def and_then_def
      mock_runtime_def failing_service_def download_service_def broker_ok_def info_ab_def
      w0_def default_arg_def passphrase_query_def getServer_request_def)

text \<open>
  C4.  Let the info fetch return a well-formed manifest \<open>files\<close> whose entries are
  neither \<^verbatim>\<open>undefined\<close> nor \<^verbatim>\<open>null\<close>, and let the request for the \<open>i\<close>-th entry be
  answered with the data \<open>ds ! i\<close>, for every entry.  Then, for every order of arrival
  that brings all the answers, \<open>downloadFiles\<close> returns the array \<open>ds\<close>: one payload for
  each entry of the manifest, in the order in which \<^verbatim>\<open>Object.keys\<close> enumerates it.
\<close>

theorem downloadFiles_order:
  assumes "getUploadInfo rt code (default_arg p (JStr '''')) w = (info, w1)"
      and "get_prop info ''files'' = Inr files" and "well_formed files"
      and "\<forall>f \<in> set (own_values files). f \<noteq> JUndefined \<and> f \<noteq> JNull"
      and "rtype = default_arg respType (JStr ''arraybuffer'')"
      and "length ds = length (own_values files)"
      and "\<forall>i < length (own_values files).
             http rt (length (requests w1) + i)
               (download_request (link_of (own_values files ! i)) rtype) = Resolve (ds ! i)"
      and "{0..<length (own_values files)} \<subseteq> set sched"
  shows "downloadFiles rt sched code p respType w =
           Some (JArray ds,
                 w1\<lparr>requests := requests w1 @
                        map (\<lambda>f. download_request (link_of f) rtype) (own_values files)\<rparr>)"
proof -
  let ?outs = "map (\<lambda>i. http rt (length (requests w1) + i)
                            (download_request (link_of (own_values files ! i)) rtype))
                 [0..<length (own_values files)]"
  have "?outs = map Resolve ds"
    using assms(6,7) by (intro nth_equalityI) auto
  then have "promise_all sched ?outs = Fulfilled ds"
    using assms(6,8) by (intro promise_all_fulfilled) simp_all
  then show ?thesis
    using downloadFiles_sent [OF assms(1-5) refl refl, of sched] by simp
qed

theorem downloadFiles_order_witness:
  "map_option fst
     (downloadFiles (mock_runtime download_service 0) [1, 0] (JStr ''abc123'')
        JUndefined JUndefined w0) =
     Some (JArray [JBuffer [97], JBuffer [98]])"
proof -
  have "downloadFiles (mock_runtime download_service 0) [1, 0] (JStr ''abc123'')
          JUndefined JUndefined w0 =
        Some (JArray [JBuffer [97], JBuffer [98]],
              \<lparr>requests =
                 [getServer_request (mock_runtime download_service 0) (JStr ''abc123''),
                  getUploadInfo_request (mock_runtime download_service 0) (JStr ''srv-file1'')
                    (JStr ''abc123'') ''''],
               console = []\<rparr>
              \<lparr>requests :=
                 requests
                   \<lparr>requests =
                      [getServer_request (mock_runtime download_service 0) (JStr ''abc123''),
                       getUploadInfo_request (mock_runtime download_service 0)
                         (JStr ''srv-file1'') (JStr ''abc123'') ''''],
                    console = []\<rparr> @
                 map (\<lambda>f. download_request (link_of f) (JStr ''arraybuffer''))
                   (own_values manifest_ab)\<rparr>)"
    by (rule downloadFiles_order [OF mock_info, where files = manifest_ab])
       (auto simp add: manifest_ab_def default_arg_def mock_runtime_def download_service_def
          numeral_2_eq_2 less_Suc_eq)
  then show ?thesis by simp
qed

text \<open>
  C5, as amended.  For such a manifest: when one of the file requests is rejected,
  \<open>downloadFiles\<close> returns no array, whatever the order of arrival, and it does not fail
  towards its caller: once all the answers are in, the rejection \<open>e\<close> of one of the
  requests is caught inside the call, which writes it to the console and returns
  \<^verbatim>\<open>undefined\<close>.  And \<open>downloadFiles\<close> returns an array only when the answers to all
  its requests have arrived.
\<close>

theorem downloadFiles_all_or_nothing:
  assumes "getUploadInfo rt code (default_arg p (JStr '''')) w = (info, w1)"
      and "get_prop info ''files'' = Inr files" and "well_formed files"
      and "\<forall>f \<in> set (own_values files). f \<noteq> JUndefined \<and> f \<noteq> JNull"
      and "rtype = default_arg respType (JStr ''arraybuffer'')"
  shows "(\<forall>j r. j < length (own_values files) \<and>
            http rt (length (requests w1) + j)
              (download_request (link_of (own_values files ! j)) rtype) = Reject r \<longrightarrow>
            (\<forall>ds w'. downloadFiles rt sched code p respType w \<noteq> Some (JArray ds, w')) \<and>
            ({0..<length (own_values files)} \<subseteq> set sched \<longrightarrow>
               (\<exists>e k w'. k < length (own_values files) \<and>
                  http rt (length (requests w1) + k)
                    (download_request (link_of (own_values files ! k)) rtype) = Reject e \<and>
                  downloadFiles rt sched code p respType w = Some (JUndefined, w') \<and>
                  console w' = console w1 @ [RequestFailed e]))) \<and>
         (\<forall>ds w'. downloadFiles rt sched code p respType w = Some (JArray ds, w') \<longrightarrow>
            {0..<length (own_values files)} \<subseteq> set sched)"
proof -
  let ?outs = "map (\<lambda>i. http rt (length (requests w1) + i)
                            (download_request (link_of (own_values files ! i)) rtype))
                 [0..<length (own_values files)]"
  let ?w2 = "w1\<lparr>requests := requests w1 @
                       map (\<lambda>f. download_request (link_of f) rtype) (own_values files)\<rparr>"
  note sent = downloadFiles_sent [OF assms(1-5) refl refl, of sched]
  have nth: "?outs ! j = http rt (length (requests w1) + j)
                 (download_request (link_of (own_values files ! j)) rtype)"
    if "j < length (own_values files)" for j
    using that by simp
  have never: "downloadFiles rt sched code p respType w \<noteq> Some (JArray ds, w')"
    if "j < length (own_values files)"
      "http rt (length (requests w1) + j)
         (download_request (link_of (own_values files ! j)) rtype) = Reject r" for j r ds w'
  proof
    assume "downloadFiles rt sched code p respType w = Some (JArray ds, w')"
    then obtain vs where "promise_all sched ?outs = Fulfilled vs"
      unfolding sent by (cases "promise_all sched ?outs") auto
    from promise_all_complete [OF this] have "?outs = map Resolve vs" by simp
    then have "?outs ! j = Resolve (vs ! j)"
      using that(1) by (metis length_map nth_map diff_zero length_upt)
    then show False using that(2) nth [OF that(1)] by simp
  qed
  have rejected: "\<exists>e k w'. k < length (own_values files) \<and>
                  http rt (length (requests w1) + k)
                    (download_request (link_of (own_values files ! k)) rtype) = Reject e \<and>
                  downloadFiles rt sched code p respType w = Some (JUndefined, w') \<and>
                  console w' = console w1 @ [RequestFailed e]"
    if "j < length (own_values files)"
      "http rt (length (requests w1) + j)
         (download_request (link_of (own_values files ! j)) rtype) = Reject r"
      "{0..<length (own_values files)} \<subseteq> set sched" for j r
  proof -
    have "j < length ?outs" using that(1) by simp
    moreover have "?outs ! j = Reject r" using that(2) nth [OF that(1)] by simp
    moreover have "{0..<length ?outs} \<subseteq> set sched" using that(3) by simp
    ultimately obtain e where e: "promise_all sched ?outs = Rejected e" "Reject e \<in> set ?outs"
      using promise_all_rejected [of j ?outs r sched] by blast
    from e(2) have "\<exists>k < length ?outs. ?outs ! k = Reject e"
      by (simp only: in_set_conv_nth)
    then obtain k where k: "k < length ?outs" "?outs ! k = Reject e"
      by blast
    then have k': "k < length (own_values files)" by simp
    let ?w3 = "?w2\<lparr>console := console ?w2 @ [RequestFailed e]\<rparr>"
    have "k < length (own_values files) \<and>
          http rt (length (requests w1) + k)
            (download_request (link_of (own_values files ! k)) rtype) = Reject e \<and>
          downloadFiles rt sched code p respType w = Some (JUndefined, ?w3) \<and>
          console ?w3 = console w1 @ [RequestFailed e]"
      using sent e(1) k(2) nth [OF k'] k' by simp
    then show ?thesis by (intro exI)
  qed
  have waits: "{0..<length (own_values files)} \<subseteq> set sched"
    if "downloadFiles rt sched code p respType w = Some (JArray ds, w')" for ds w'
  proof -
    from that obtain vs where "promise_all sched ?outs = Fulfilled vs"
      unfolding sent by (cases "promise_all sched ?outs") auto
    from promise_all_complete [OF this] show ?thesis by simp
  qed
  show ?thesis
  proof (intro conjI allI impI)
    fix j r ds w'
    assume "j < length (own_values files) \<and>
            http rt (length (requests w1) + j)
              (download_request (link_of (own_values files ! j)) rtype) = Reject r"
    then have "j < length (own_values files)"
      and "http rt (length (requests w1) + j)
             (download_request (link_of (own_values files ! j)) rtype) = Reject r"
      by simp_all
    then show "downloadFiles rt sched code p respType w \<noteq> Some (JArray ds, w')"
      by (rule never)
  next
    fix j r
    assume "j < length (own_values files) \<and>
            http rt (length (requests w1) + j)
              (download_request (link_of (own_values files ! j)) rtype) = Reject r"
      and "{0..<length (own_values files)} \<subseteq> set sched"
    then have "j < length (own_values files)"
      and "http rt (length (requests w1) + j)
             (download_request (link_of (own_values files ! j)) rtype) = Reject r"
      and "{0..<length (own_values files)} \<subseteq> set sched"
      by simp_all
    then show "\<exists>e k w'. k < length (own_values files) \<and>
                  http rt (length (requests w1) + k)
                    (download_request (link_of (own_values files ! k)) rtype) = Reject e \<and>
                  downloadFiles rt sched code p respType w = Some (JUndefined, w') \<and>
                  console w' = console w1 @ [RequestFailed e]"
      by (rule rejected)
  next
    fix ds w'
    assume "downloadFiles rt sched code p respType w = Some (JArray ds, w')"
    then show "{0..<length (own_values files)} \<subseteq> set sched"
      by (rule waits)
  qed
qed

theorem downloadFiles_all_or_nothing_witness:
  "map_option fst
     (downloadFiles (mock_runtime failing_service 0) [1, 0] (JStr ''abc123'')
        JUndefined JUndefined w0) =
     Some JUndefined"
proof -
  note t = downloadFiles_all_or_nothing [OF mock_info_failing, where files = manifest_ab
      and rtype = "JStr ''arraybuffer''" and respType = JUndefined and sched = "[1, 0]",
      THEN conjunct1, rule_format, of 1 "JStr ''404''", THEN conjunct2, rule_format]
  have "\<exists>e k w'. k < length (own_values manifest_ab) \<and>
          http (mock_runtime failing_service 0)
            (length (requests
               \<lparr>requests =
                  [getServer_request (mock_runtime failing_service 0) (JStr ''abc123''),
                   getUploadInfo_request (mock_runtime failing_service 0) (JStr ''srv-file1'')
                     (JStr ''abc123'') ''''],
                console = []\<rparr>) + k)
            (download_request (link_of (own_values manifest_ab ! k)) (JStr ''arraybuffer'')) =
            Reject e \<and>
          downloadFiles (mock_runtime failing_service 0) [1, 0] (JStr ''abc123'')
            JUndefined JUndefined w0 = Some (JUndefined, w') \<and>
          console w' =
            console
              \<lparr>requests =
                 [getServer_request (mock_runtime failing_service 0) (JStr ''abc123''),
                  getUploadInfo_request (mock_runtime failing_service 0) (JStr ''srv-file1'')
                    (JStr ''abc123'') ''''],
               console = []\<rparr> @ [RequestFailed e]"
    by (rule t)
       (auto simp add: manifest_ab_def default_arg_def mock_runtime_def failing_service_def
          download_service_def numeral_2_eq_2 less_Suc_eq)
  then show ?thesis by auto
qed

text \<open>
  C5, as stated, fails.  The upload has two files and the request for the second is
  answered with 404.  The call of \<open>downloadFiles\<close> does not fail: it returns
  \<^verbatim>\<open>undefined\<close>, after the broker request, the info request and the two file requests,
  and the rejection is only written to the console.
\<close>

theorem downloadFiles_all_or_nothing_counterexample:
  "downloadFiles (mock_runtime failing_service 0) [1, 0] (JStr ''abc123'')
     JUndefined JUndefined w0 =
     Some (JUndefined,
       \<lparr>requests =
          [getServer_request (mock_runtime failing_service 0) (JStr ''abc123''),
           getUploadInfo_request (mock_runtime failing_service 0) (JStr ''srv-file1'')
             (JStr ''abc123'') '''',
           download_request (JStr ''https://srv-file1.gofile.io/download/abc123/a.txt'')
             (JStr ''arraybuffer''),
           download_request (JStr ''https://srv-file1.gofile.io/download/abc123/b.txt'')
             (JStr ''arraybuffer'')],
        console = [RequestFailed (JStr ''404'')]\<rparr>)"
proof -
  let ?rt = "mock_runtime failing_service 0"
  let ?w1 = "\<lparr>requests = [getServer_request ?rt (JStr ''abc123''),
                          getUploadInfo_request ?rt (JStr ''srv-file1'') (JStr ''abc123'') ''''],
              console = []\<rparr>"
  let ?outs = "map (\<lambda>i. http ?rt (length (requests ?w1) + i)
                           (download_request (link_of (own_values manifest_ab ! i))
                              (JStr ''arraybuffer'')))
                 [0..<length (own_values manifest_ab)]"
  let ?w2 = "?w1\<lparr>requests := requests ?w1 @
               map (\<lambda>f. download_request (link_of f) (JStr ''arraybuffer''))
                 (own_values manifest_ab)\<rparr>"
  have sent: "downloadFiles ?rt [1, 0] (JStr ''abc123'') JUndefined JUndefined w0 =
      (case promise_all [1, 0] ?outs of
         Pending \<Rightarrow> None
       | Rejected e \<Rightarrow> Some (JUndefined, ?w2\<lparr>console := console ?w2 @ [RequestFailed e]\<rparr>)
       | Fulfilled ds \<Rightarrow> Some (JArray ds, ?w2))"
    by (rule downloadFiles_sent [OF mock_info_failing, where files = manifest_ab])
       (simp_all add: manifest_ab_def default_arg_def)
  have outs: "?outs = [Resolve (JBuffer [97]), Reject (JStr ''404'')]"
    by (simp add: manifest_ab_def mock_runtime_def failing_service_def download_service_def
        upt_rec)
  have "promise_all [1, 0] ?outs = Rejected (JStr ''404'')"
    unfolding outs by (simp add: promise_all_def)
  then show ?thesis
    unfolding sent by (simp add: manifest_ab_def link_of_def)
qed

section \<open>Failures\<close>

lemma getServer_failed:
  assumes "failed (http rt (length (requests w)) (getServer_request rt code))"
  shows "\<exists>e. getServer rt code w =
           (JUndefined, w\<lparr>requests := requests w @ [getServer_request rt code],
                           console := console w @ [e]\<rparr>)"
  using assms
  by (auto simp add: failed_def getServer_def axios_def catch_log_def and_then_def
      split: outcome.splits sum.splits)

lemma uploadFiles_failed:
  assumes "getServer rt JUndefined w = (server, w1)"
      and "build_form rt files (default_arg options (JObj [])) = Inr fd"
      and "failed (http rt (length (requests w1)) (upload_request rt server fd))"
  shows "\<exists>e. uploadFiles rt files options w =
           (JUndefined, w1\<lparr>requests := requests w1 @ [upload_request rt server fd],
                            console := console w1 @ [e]\<rparr>)"
  using assms(3) unfolding uploadFiles_posted [OF assms(1,2)]
  by (auto simp add: failed_def catch_log_def and_then_def split: outcome.splits sum.splits)

lemma getUploadInfo_failed:
  assumes "getServer rt code w = (server, w1)"
      and "passphrase_query (default_arg p (JStr '''')) = Inr q"
      and "failed (http rt (length (requests w1)) (getUploadInfo_request rt server code q))"
  shows "\<exists>e. getUploadInfo rt code p w =
           (JUndefined, w1\<lparr>requests := requests w1 @ [getUploadInfo_request rt server code q],
                            console := console w1 @ [e]\<rparr>)"
  using assms(3) unfolding getUploadInfo_sent [OF assms(1,2)]
  by (auto simp add: failed_def catch_log_def and_then_def split: outcome.splits sum.splits)

lemma removeUpload_failed:
  assumes "getServer rt code w = (server, w1)"
      and "failed (http rt (length (requests w1)) (removeUpload_request rt server code removalCode))"
  shows "\<exists>e. removeUpload rt code removalCode w =
           (JUndefined,
            w1\<lparr>requests := requests w1 @ [removeUpload_request rt server code removalCode],
                console := console w1 @ [e]\<rparr>)"
  using assms(2) unfolding removeUpload_sent [OF assms(1)]
  by (auto simp add: failed_def catch_log_def and_then_def split: outcome.splits sum.splits)

lemma downloadFiles_no_info:
  assumes "getUploadInfo rt code (default_arg p (JStr '''')) w = (JUndefined, w1)"
  shows "downloadFiles rt sched code p respType w =
           Some (JUndefined, w1\<lparr>console := console w1 @ [TypeError]\<rparr>)"
  using assms by (simp add: downloadFiles_def manifest_entries_def and_then_def catch_log_def)

text \<open>
  C2.  Every operation swallows its failures.  When the request an operation sends has
  failed, being rejected or answered with a status other than \<open>ok\<close>, the operation
  writes one error to the console and returns \<^verbatim>\<open>undefined\<close>: so do \<open>getServer\<close>,
  \<open>uploadFiles\<close>, \<open>getUploadInfo\<close> and \<open>removeUpload\<close> for their own request, and
  \<open>downloadFiles\<close> for a rejected file request once all answers are in, as well as when
  the info fetch before it gave \<^verbatim>\<open>undefined\<close>.  An info fetch that succeeds with an
  empty payload returns \<^verbatim>\<open>undefined\<close> too, so the returned value does not tell a failed
  call from such a success.
\<close>

theorem failures_swallowed:
  "(failed (http rt (length (requests w)) (getServer_request rt code)) \<longrightarrow>
      (\<exists>e. getServer rt code w =
         (JUndefined, w\<lparr>requests := requests w @ [getServer_request rt code],
                         console := console w @ [e]\<rparr>))) \<and>
   (\<forall>server w1 fd.
      getServer rt JUndefined w = (server, w1) \<and>
      build_form rt files (default_arg options (JObj [])) = Inr fd \<and>
      failed (http rt (length (requests w1)) (upload_request rt server fd)) \<longrightarrow>
      (\<exists>e. uploadFiles rt files options w =
         (JUndefined, w1\<lparr>requests := requests w1 @ [upload_request rt server fd],
                          console := console w1 @ [e]\<rparr>))) \<and>
   (\<forall>server w1 q.
      getServer rt code w = (server, w1) \<and>
      passphrase_query (default_arg p (JStr '''')) = Inr q \<and>
      failed (http rt (length (requests w1)) (getUploadInfo_request rt server code q)) \<longrightarrow>
      (\<exists>e. getUploadInfo rt code p w =
         (JUndefined, w1\<lparr>requests := requests w1 @ [getUploadInfo_request rt server code q],
                          console := console w1 @ [e]\<rparr>))) \<and>
   (\<forall>server w1.
      getServer rt code w = (server, w1) \<and>
      failed (http rt (length (requests w1))
                (removeUpload_request rt server code removalCode)) \<longrightarrow>
      (\<exists>e. removeUpload rt code removalCode w =
         (JUndefined,
          w1\<lparr>requests := requests w1 @ [removeUpload_request rt server code removalCode],
              console := console w1 @ [e]\<rparr>))) \<and>
   (\<forall>info w1 files j r.
      getUploadInfo rt code (default_arg p (JStr '''')) w = (info, w1) \<and>
      get_prop info ''files'' = Inr files \<and> well_formed files \<and>
      (\<forall>f \<in> set (own_values files). f \<noteq> JUndefined \<and> f \<noteq> JNull) \<and>
      j < length (own_values files) \<and>
      http rt (length (requests w1) + j)
        (download_request (link_of (own_values files ! j))
           (default_arg respType (JStr ''arraybuffer''))) = Reject r \<and>
      {0..<length (own_values files)} \<subseteq> set sched \<longrightarrow>
      (\<exists>e w'. downloadFiles rt sched code p respType w = Some (JUndefined, w') \<and>
              console w' = console w1 @ [e])) \<and>
   (\<forall>w1. getUploadInfo rt code (default_arg p (JStr '''')) w = (JUndefined, w1) \<longrightarrow>
      downloadFiles rt sched code p respType w =
        Some (JUndefined, w1\<lparr>console := console w1 @ [TypeError]\<rparr>)) \<and>
   (\<forall>server w1 q d.
      getServer rt code w = (server, w1) \<and>
      passphrase_query (default_arg p (JStr '''')) = Inr q \<and>
      http rt (length (requests w1)) (getUploadInfo_request rt server code q) = Resolve d \<and>
      get_prop d ''status'' = Inr (JStr ''ok'') \<and> get_prop d ''data'' = Inr JUndefined \<longrightarrow>
      getUploadInfo rt code p w =
        (JUndefined, w1\<lparr>requests := requests w1 @ [getUploadInfo_request rt server code q]\<rparr>))"
proof (intro conjI allI impI)
  show "\<exists>e. getServer rt code w =
         (JUndefined, w\<lparr>requests := requests w @ [getServer_request rt code],
                         console := console w @ [e]\<rparr>)"
    if "failed (http rt (length (requests w)) (getServer_request rt code))"
    using that by (rule getServer_failed)
next
  fix server w1 fd
  assume "getServer rt JUndefined w = (server, w1) \<and>
      build_form rt files (default_arg options (JObj [])) = Inr fd \<and>
      failed (http rt (length (requests w1)) (upload_request rt server fd))"
  then show "\<exists>e. uploadFiles rt files options w =
         (JUndefined, w1\<lparr>requests := requests w1 @ [upload_request rt server fd],
                          console := console w1 @ [e]\<rparr>)"
    using uploadFiles_failed by blast
next
  fix server w1 q
  assume "getServer rt code w = (server, w1) \<and>
      passphrase_query (default_arg p (JStr '''')) = Inr q \<and>
      failed (http rt (length (requests w1)) (getUploadInfo_request rt server code q))"
  then show "\<exists>e. getUploadInfo rt code p w =
         (JUndefined, w1\<lparr>requests := requests w1 @ [getUploadInfo_request rt server code q],
                          console := console w1 @ [e]\<rparr>)"
    using getUploadInfo_failed by blast
next
  fix server w1
  assume "getServer rt code w = (server, w1) \<and>
      failed (http rt (length (requests w1))
                (removeUpload_request rt server code removalCode))"
  then show "\<exists>e. removeUpload rt code removalCode w =
         (JUndefined,
          w1\<lparr>requests := requests w1 @ [removeUpload_request rt server code removalCode],
              console := console w1 @ [e]\<rparr>)"
    using removeUpload_failed by blast
next
  fix info files j r and w1 :: world
  let ?rtype = "default_arg respType (JStr ''arraybuffer'')"
  let ?outs = "map (\<lambda>i. http rt (length (requests w1) + i)
                            (download_request (link_of (own_values files ! i)) ?rtype))
                 [0..<length (own_values files)]"
  let ?w2 = "w1\<lparr>requests := requests w1 @
                       map (\<lambda>f. download_request (link_of f) ?rtype) (own_values files)\<rparr>"
  assume a: "getUploadInfo rt code (default_arg p (JStr '''')) w = (info, w1) \<and>
      get_prop info ''files'' = Inr files \<and> well_formed files \<and>
      (\<forall>f \<in> set (own_values files). f \<noteq> JUndefined \<and> f \<noteq> JNull) \<and>
      j < length (own_values files) \<and>
      http rt (length (requests w1) + j)
        (download_request (link_of (own_values files ! j)) ?rtype) = Reject r \<and>
      {0..<length (own_values files)} \<subseteq> set sched"
  then have a1: "getUploadInfo rt code (default_arg p (JStr '''')) w = (info, w1)"
    and a2: "get_prop info ''files'' = Inr files" and a3: "well_formed files"
    and a4: "\<forall>f \<in> set (own_values files). f \<noteq> JUndefined \<and> f \<noteq> JNull"
    by simp_all
  note sent = downloadFiles_sent [OF a1 a2 a3 a4 refl refl refl, where respType = respType and sched = sched]
  have "j < length ?outs" "?outs ! j = Reject r" "{0..<length ?outs} \<subseteq> set sched"
    using a by simp_all
  then obtain e where "promise_all sched ?outs = Rejected e"
    using promise_all_rejected [of j ?outs r sched] by blast
  then have "downloadFiles rt sched code p respType w =
      Some (JUndefined, ?w2\<lparr>console := console ?w2 @ [RequestFailed e]\<rparr>) \<and>
      console (?w2\<lparr>console := console ?w2 @ [RequestFailed e]\<rparr>) =
        console w1 @ [RequestFailed e]"
    using sent by simp
  then show "\<exists>e w'. downloadFiles rt sched code p respType w = Some (JUndefined, w') \<and>
              console w' = console w1 @ [e]"
    by blast
next
  fix w1
  assume "getUploadInfo rt code (default_arg p (JStr '''')) w = (JUndefined, w1)"
  then show "downloadFiles rt sched code p respType w =
        Some (JUndefined, w1\<lparr>console := console w1 @ [TypeError]\<rparr>)"
    by (rule downloadFiles_no_info)
next
  fix server w1 q d
  assume a: "getServer rt code w = (server, w1) \<and>
      passphrase_query (default_arg p (JStr '''')) = Inr q \<and>
      http rt (length (requests w1)) (getUploadInfo_request rt server code q) = Resolve d \<and>
      get_prop d ''status'' = Inr (JStr ''ok'') \<and> get_prop d ''data'' = Inr JUndefined"
  then have b1: "getServer rt code w = (server, w1)"
    and b2: "passphrase_query (default_arg p (JStr '''')) = Inr q" by simp_all
  note getUploadInfo_sent [OF b1 b2]
  then show "getUploadInfo rt code p w =
        (JUndefined, w1\<lparr>requests := requests w1 @ [getUploadInfo_request rt server code q]\<rparr>)"
    using a by (simp add: catch_log_def and_then_def)
qed

theorem failures_swallowed_witness:
  "failed (http (mock_runtime (\<lambda>n r. Resolve broker_error) 0) (length (requests w0))
             (getServer_request (mock_runtime (\<lambda>n r. Resolve broker_error) 0) JUndefined)) \<and>
   (\<exists>e. getServer (mock_runtime (\<lambda>n r. Resolve broker_error) 0) JUndefined w0 =
      (JUndefined,
       w0\<lparr>requests := requests w0 @
                [getServer_request (mock_runtime (\<lambda>n r. Resolve broker_error) 0) JUndefined],
           console := console w0 @ [e]\<rparr>))"
  using failures_swallowed [of "mock_runtime (\<lambda>n r. Resolve broker_error) 0" w0 JUndefined]
  by (simp add: failed_def mock_runtime_def broker_error_def)

end
